theory Spec2Isabelle
  imports Main "HOL-Library.AList" "HOL-Library.Char_ord" "HOL-Library.List_Lexorder"
begin

section \<open>Python values\<close>

text \<open>
  The module \<^verbatim>\<open>cloudformation_diff.py\<close> is Python 2 (it names \<^verbatim>\<open>long\<close>). Its data are
  the values that \<^verbatim>\<open>json.loads\<close> builds, and the text of a template file.

  \<^item> A dict is the list of its items in iteration order. A new key is stored behind the
    others and a key that is stored again keeps its place (\<open>AList.update\<close>), so the
    items of a dict have distinct keys. Keys are strings, as in every JSON document.
    Python 2 leaves the iteration order of a plain dict to the implementation: PyPy
    keeps the order of insertion, CPython 2 derives the order from the hashes of the
    keys and the order of insertion. The model keeps the order of insertion; in either
    implementation two dicts built by the same insertions are iterated alike.
  \<^item> \<^verbatim>\<open>str\<close> and \<^verbatim>\<open>unicode\<close> are one constructor: a string is its text.
  \<^item> \<^verbatim>\<open>int\<close> and \<^verbatim>\<open>long\<close> are one constructor: an unbounded integer.
  \<^item> A float is a value of a type parameter: what Python does with it (its \<^verbatim>\<open>str\<close>, its
    truth value, its comparison with a number) is taken from the environment below.
\<close>

datatype error =
    TypeError | KeyError | IndexError | AttributeError | ValueError | RuntimeError
  | UnboundLocalError | ClientError | SystemExit | KeyboardInterrupt

text \<open>
  \<^verbatim>\<open>except Exception\<close> catches every exception but the two that derive from
  \<^verbatim>\<open>BaseException\<close> only.
\<close>

fun is_Exception :: "error \<Rightarrow> bool" where
  "is_Exception SystemExit = False"
| "is_Exception KeyboardInterrupt = False"
| "is_Exception _ = True"

datatype 'f pyval =
    PyNone
  | PyBool bool
  | PyInt int
  | PyFloat 'f
  | PyStr string
  | PyList "'f pyval list"
  | PyDict "(string \<times> 'f pyval) list"

text \<open>
  What the module takes from outside its own file: Python's handling of floats, the
  \<^verbatim>\<open>repr\<close> of a list or dict, and the libraries \<^verbatim>\<open>json\<close> and \<^verbatim>\<open>cfn_flip\<close>.

  \<^item> \<open>loads\<close> is lines 272-280 on data that is not a dict: \<^verbatim>\<open>to_json(data)\<close>, on a
    \<^verbatim>\<open>ValueError\<close> \<^verbatim>\<open>to_json(to_yaml(data))\<close>, then \<^verbatim>\<open>json.loads\<close>; \<open>Inl\<close> is the
    exception that leaves this block.
  \<^item> \<open>yaml_dumps\<close> is \<^verbatim>\<open>to_yaml(json.dumps(data))\<close> of line 288.
\<close>

record 'f env =
  float_str :: "'f \<Rightarrow> string"
  float_nonzero :: "'f \<Rightarrow> bool"
  float_eq :: "'f \<Rightarrow> 'f pyval \<Rightarrow> bool"
  container_str :: "'f pyval \<Rightarrow> string"
  loads :: "'f pyval \<Rightarrow> error + 'f pyval"
  yaml_dumps :: "'f pyval \<Rightarrow> string"

subsection \<open>Strings\<close>

fun digits :: "nat \<Rightarrow> string" where
  "digits n =
     (if n < 10 then [''0123456789'' ! n]
      else digits (n div 10) @ [''0123456789'' ! (n mod 10)])"

definition str_int :: "int \<Rightarrow> string" where
  "str_int i = (if i < 0 then CHR ''-'' # digits (nat (- i)) else digits (nat i))"

definition lower_char :: "char \<Rightarrow> char" where
  "lower_char c =
     (case map_of (zip ''ABCDEFGHIJKLMNOPQRSTUVWXYZ'' ''abcdefghijklmnopqrstuvwxyz'') c of
        Some l \<Rightarrow> l
      | None \<Rightarrow> c)"

definition lower :: "string \<Rightarrow> string" where
  "lower s = map lower_char s"

text \<open>\<^verbatim>\<open>str(obj)\<close>.\<close>

fun py_str :: "'f env \<Rightarrow> 'f pyval \<Rightarrow> string" where
  "py_str E PyNone = ''None''"
| "py_str E (PyBool b) = (if b then ''True'' else ''False'')"
| "py_str E (PyInt i) = str_int i"
| "py_str E (PyFloat x) = float_str E x"
| "py_str E (PyStr s) = s"
| "py_str E (PyList xs) = container_str E (PyList xs)"
| "py_str E (PyDict d) = container_str E (PyDict d)"

text \<open>\<^verbatim>\<open>needle in text\<close> on two strings: \<open>needle\<close> occurs in \<open>text\<close>.\<close>

fun is_substring :: "string \<Rightarrow> string \<Rightarrow> bool" where
  "is_substring needle [] = (needle = [])"
| "is_substring needle (c # cs) =
     (take (length needle) (c # cs) = needle \<or> is_substring needle cs)"

subsection \<open>Operators and methods\<close>

text \<open>The truth value of an object (\<^verbatim>\<open>if items:\<close>).\<close>

fun py_truthy :: "'f env \<Rightarrow> 'f pyval \<Rightarrow> bool" where
  "py_truthy E PyNone = False"
| "py_truthy E (PyBool b) = b"
| "py_truthy E (PyInt i) = (i \<noteq> 0)"
| "py_truthy E (PyFloat x) = float_nonzero E x"
| "py_truthy E (PyStr s) = (s \<noteq> [])"
| "py_truthy E (PyList xs) = (xs \<noteq> [])"
| "py_truthy E (PyDict d) = (d \<noteq> [])"

text \<open>\<^verbatim>\<open>for i in obj\<close>: the values the loop variable takes.\<close>

fun py_iter :: "'f pyval \<Rightarrow> error + 'f pyval list" where
  "py_iter (PyList xs) = Inr xs"
| "py_iter (PyDict d) = Inr (map (\<lambda>kv. PyStr (fst kv)) d)"
| "py_iter (PyStr s) = Inr (map (\<lambda>c. PyStr [c]) s)"
| "py_iter _ = Inl TypeError"

text \<open>\<^verbatim>\<open>xs[i]\<close> on a list or string of length \<open>n\<close>: the indices are \<open>-n\<close> to \<open>n - 1\<close>.\<close>

definition seq_index :: "'a list \<Rightarrow> int \<Rightarrow> error + 'a" where
  "seq_index xs i =
     (if 0 \<le> i \<and> i < int (length xs) then Inr (xs ! nat i)
      else if i < 0 \<and> - int (length xs) \<le> i then Inr (xs ! nat (int (length xs) + i))
      else Inl IndexError)"

text \<open>
  \<^verbatim>\<open>obj[key]\<close>. A dict takes any hashable key (a list or dict is not) and holds
  strings only; a list or string takes an integer (\<^verbatim>\<open>bool\<close> is a subclass of
  \<^verbatim>\<open>int\<close>); nothing else can be subscripted.
\<close>

fun py_getitem :: "'f pyval \<Rightarrow> 'f pyval \<Rightarrow> error + 'f pyval" where
  "py_getitem (PyDict d) (PyStr k) =
     (case map_of d k of None \<Rightarrow> Inl KeyError | Some v \<Rightarrow> Inr v)"
| "py_getitem (PyDict d) (PyList _) = Inl TypeError"
| "py_getitem (PyDict d) (PyDict _) = Inl TypeError"
| "py_getitem (PyDict d) _ = Inl KeyError"
| "py_getitem (PyList xs) (PyInt i) = seq_index xs i"
| "py_getitem (PyList xs) (PyBool b) = seq_index xs (if b then 1 else 0)"
| "py_getitem (PyList xs) _ = Inl TypeError"
| "py_getitem (PyStr s) (PyInt i) = seq_index (map (\<lambda>c. PyStr [c]) s) i"
| "py_getitem (PyStr s) (PyBool b) = seq_index (map (\<lambda>c. PyStr [c]) s) (if b then 1 else 0)"
| "py_getitem (PyStr s) _ = Inl TypeError"
| "py_getitem _ _ = Inl TypeError"

text \<open>\<^verbatim>\<open>name in obj\<close> for a string \<open>name\<close>.\<close>

fun py_contains :: "string \<Rightarrow> 'f pyval \<Rightarrow> error + bool" where
  "py_contains name (PyDict d) = Inr (name \<in> set (map fst d))"
| "py_contains name (PyList xs) = Inr (PyStr name \<in> set xs)"
| "py_contains name (PyStr s) = Inr (is_substring name s)"
| "py_contains name _ = Inl TypeError"

text \<open>\<^verbatim>\<open>obj.get(name)\<close>: only a dict has the method.\<close>

fun py_get :: "'f pyval \<Rightarrow> string \<Rightarrow> error + 'f pyval" where
  "py_get (PyDict d) name = Inr (case map_of d name of None \<Rightarrow> PyNone | Some v \<Rightarrow> v)"
| "py_get _ name = Inl AttributeError"

text \<open>
  \<^verbatim>\<open>obj.pop(key, None)\<close>, returning the object after the call. On a list the call has
  one argument too many; other objects have no such method.
\<close>

fun py_pop :: "'f pyval \<Rightarrow> 'f pyval \<Rightarrow> error + 'f pyval" where
  "py_pop (PyDict d) (PyStr k) = Inr (PyDict (AList.delete k d))"
| "py_pop (PyDict d) (PyList _) = Inl TypeError"
| "py_pop (PyDict d) (PyDict _) = Inl TypeError"
| "py_pop (PyDict d) _ = Inr (PyDict d)"
| "py_pop (PyList xs) _ = Inl TypeError"
| "py_pop _ _ = Inl AttributeError"

text \<open>\<^verbatim>\<open>dict(pairs)\<close> and the dict comprehension: the items are stored one by one.\<close>

definition dict_of :: "(string \<times> 'f pyval) list \<Rightarrow> (string \<times> 'f pyval) list" where
  "dict_of pairs = fold (\<lambda>(k, v) d. AList.update k v d) pairs []"

text \<open>\<^verbatim>\<open>d.update(other)\<close> for two dicts.\<close>

definition dict_update ::
  "(string \<times> 'f pyval) list \<Rightarrow> (string \<times> 'f pyval) list \<Rightarrow> (string \<times> 'f pyval) list" where
  "dict_update d other = fold (\<lambda>(k, v) d. AList.update k v d) other d"

text \<open>
  \<^verbatim>\<open>a == b\<close>. Two dicts are equal when they have as many items and every key of the
  first is a key of the second with an equal value; two lists when they are equal item
  by item; \<^verbatim>\<open>bool\<close> and \<^verbatim>\<open>int\<close> compare as numbers; objects of different kinds are
  unequal.
\<close>

fun py_eq :: "'f env \<Rightarrow> 'f pyval \<Rightarrow> 'f pyval \<Rightarrow> bool" where
  "py_eq E PyNone b = (b = PyNone)"
| "py_eq E (PyStr s) b = (b = PyStr s)"
| "py_eq E (PyBool x) b =
     (case b of PyBool y \<Rightarrow> x = y | PyInt j \<Rightarrow> (if x then 1 else 0) = j
      | PyFloat y \<Rightarrow> float_eq E y (PyBool x) | _ \<Rightarrow> False)"
| "py_eq E (PyInt i) b =
     (case b of PyBool y \<Rightarrow> i = (if y then 1 else 0) | PyInt j \<Rightarrow> i = j
      | PyFloat y \<Rightarrow> float_eq E y (PyInt i) | _ \<Rightarrow> False)"
| "py_eq E (PyFloat x) b = float_eq E x b"
| "py_eq E (PyList xs) b =
     (case b of PyList ys \<Rightarrow> list_all2 (py_eq E) xs ys | _ \<Rightarrow> False)"
| "py_eq E (PyDict d) b =
     (case b of
        PyDict d' \<Rightarrow>
          length d = length d' \<and>
          list_all (\<lambda>(k, v). case map_of d' k of None \<Rightarrow> False | Some w \<Rightarrow> py_eq E v w) d
      | _ \<Rightarrow> False)"

text \<open>Statements in sequence: an exception in the first ends the block.\<close>

definition and_then :: "error + 'a \<Rightarrow> ('a \<Rightarrow> error + 'b) \<Rightarrow> error + 'b" where
  "and_then m f = (case m of Inl e \<Rightarrow> Inl e | Inr x \<Rightarrow> f x)"

section \<open>The canonical form\<close>

text \<open>
  \<^verbatim>\<open>SortedDict(**kwargs)\<close>, lines 178-190. The call binds the items of the dict to the
  keyword parameter of \<^verbatim>\<open>__init__(self, **kwargs)\<close>: an item named \<^verbatim>\<open>self\<close> clashes
  with the first parameter and the call raises \<^verbatim>\<open>TypeError\<close>. The loop runs over
  \<^verbatim>\<open>sorted(kwargs.items())\<close>, which orders the items by key since no two items share
  one, and builds only the dict values anew; every other value, a list too, is stored
  as it is.
\<close>

fun SortedDict :: "(string \<times> 'f pyval) list \<Rightarrow> error + (string \<times> 'f pyval) list" where
  "SortedDict kwargs =
     (if ''self'' \<in> set (map fst kwargs) then Inl TypeError
      else fold (\<lambda>(key, value) self.
             case self of
               Inl e \<Rightarrow> Inl e
             | Inr d \<Rightarrow>
                 (case value of
                    PyDict sub \<Rightarrow>
                      (case SortedDict sub of
                         Inl e \<Rightarrow> Inl e
                       | Inr s \<Rightarrow> Inr (AList.update key (PyDict s) d))
                  | _ \<Rightarrow> Inr (AList.update key value d)))
           (sort_key fst kwargs) (Inr []))"

text \<open>
  \<^verbatim>\<open>quote_json\<close>, lines 199-210. The first test is on the exact type: \<^verbatim>\<open>bool\<close>,
  \<^verbatim>\<open>str\<close>, \<^verbatim>\<open>int\<close>, \<^verbatim>\<open>float\<close>, \<^verbatim>\<open>long\<close> give \<^verbatim>\<open>str(obj)\<close> (a \<^verbatim>\<open>unicode\<close> falls
  through to the last line and is returned, the same text). \<^verbatim>\<open>None\<close> matches no test
  and is returned as it is. A dict, a \<^verbatim>\<open>SortedDict\<close> too, becomes a plain dict built
  by a comprehension over its items.
\<close>

primrec quote_json :: "'f env \<Rightarrow> 'f pyval \<Rightarrow> 'f pyval" where
  "quote_json E PyNone = PyNone"
| "quote_json E (PyBool b) = PyStr (py_str E (PyBool b))"
| "quote_json E (PyInt i) = PyStr (py_str E (PyInt i))"
| "quote_json E (PyFloat x) = PyStr (py_str E (PyFloat x))"
| "quote_json E (PyStr s) = PyStr (py_str E (PyStr s))"
| "quote_json E (PyList xs) = PyList (map (quote_json E) xs)"
| "quote_json E (PyDict d) = PyDict (dict_of (map (map_prod id (quote_json E)) d))"

text \<open>
  \<^verbatim>\<open>get_json_or_yaml\<close>, lines 261-290, in its three steps.

  Lines 267-280: a dict is written as JSON text and read back, which gives the same
  document; other data (the text of a template) is read by \<open>loads\<close>.
\<close>

definition read_data :: "'f env \<Rightarrow> 'f pyval \<Rightarrow> error + 'f pyval" where
  "read_data E data = (case data of PyDict d \<Rightarrow> Inr (PyDict d) | _ \<Rightarrow> loads E data)"

text \<open>
  Lines 282-284: \<^verbatim>\<open>SortedDict(**data)\<close> needs a mapping. A document that is a list, a
  string, a number or \<^verbatim>\<open>None\<close> raises \<^verbatim>\<open>TypeError\<close> at the call.
\<close>

definition sort_and_quote :: "'f env \<Rightarrow> 'f pyval \<Rightarrow> error + 'f pyval" where
  "sort_and_quote E data =
     and_then (case data of PyDict kwargs \<Rightarrow> SortedDict kwargs | _ \<Rightarrow> Inl TypeError) (\<lambda>sorted.
     Inr (quote_json E (PyDict sorted)))"

text \<open>Lines 286-290: the dict itself, or for the format \<^verbatim>\<open>yaml\<close> its text.\<close>

definition write_data :: "'f env \<Rightarrow> string \<Rightarrow> 'f pyval \<Rightarrow> 'f pyval" where
  "write_data E output_format data =
     (if output_format = ''yaml'' then PyStr (yaml_dumps E data) else data)"

definition get_json_or_yaml :: "'f env \<Rightarrow> 'f pyval \<Rightarrow> string \<Rightarrow> error + 'f pyval" where
  "get_json_or_yaml E data output_format =
     and_then (read_data E data) (\<lambda>data.
     and_then (sort_and_quote E data) (\<lambda>data.
     Inr (write_data E output_format data)))"

section \<open>Template parameters\<close>

text \<open>
  \<^verbatim>\<open>cfn_get_noecho_param_names\<close>, lines 230-242. The loop is over whatever \<open>items\<close>
  is; \<open>data\<close> collects the loop variable itself.
\<close>

fun noecho_loop ::
  "'f env \<Rightarrow> 'f pyval \<Rightarrow> 'f pyval list \<Rightarrow> 'f pyval list \<Rightarrow> error + 'f pyval list" where
  "noecho_loop E items [] data = Inr data"
| "noecho_loop E items (i # rest) data =
     (case py_getitem items i of
        Inl e \<Rightarrow> Inl e
      | Inr attrs \<Rightarrow>
          (case py_contains ''NoEcho'' attrs of
             Inl e \<Rightarrow> Inl e
           | Inr present \<Rightarrow>
               if present then
                 (case py_getitem attrs (PyStr ''NoEcho'') of
                    Inl e \<Rightarrow> Inl e
                  | Inr flag \<Rightarrow>
                      if lower (py_str E flag) = ''true''
                      then noecho_loop E items rest (data @ [i])
                      else noecho_loop E items rest data)
               else noecho_loop E items rest data))"

definition cfn_get_noecho_param_names :: "'f env \<Rightarrow> 'f pyval \<Rightarrow> error + 'f pyval list" where
  "cfn_get_noecho_param_names E items =
     (if py_truthy E items
      then and_then (py_iter items) (\<lambda>keys. noecho_loop E items keys [])
      else Inr [])"

text \<open>
  \<^verbatim>\<open>data[i] = value\<close> on the dict under construction. A list or dict is no key. A key
  that is neither that nor a string is met only when \<open>items\<close> is a list; the loop then
  raises at a later item (a list is indexed by integers, and an integer has no
  \<^verbatim>\<open>in\<close>), so what is stored under such a key is never returned and is left out.
\<close>

fun dict_setitem ::
  "(string \<times> 'f pyval) list \<Rightarrow> 'f pyval \<Rightarrow> 'f pyval \<Rightarrow> error + (string \<times> 'f pyval) list" where
  "dict_setitem d (PyStr k) v = Inr (AList.update k v d)"
| "dict_setitem d (PyList _) v = Inl TypeError"
| "dict_setitem d (PyDict _) v = Inl TypeError"
| "dict_setitem d _ v = Inr d"

text \<open>\<^verbatim>\<open>cfn_get_default_value_params\<close>, lines 245-258.\<close>

fun default_loop ::
  "'f pyval \<Rightarrow> 'f pyval list \<Rightarrow> (string \<times> 'f pyval) list \<Rightarrow> error + (string \<times> 'f pyval) list" where
  "default_loop items [] data = Inr data"
| "default_loop items (i # rest) data =
     (case py_getitem items i of
        Inl e \<Rightarrow> Inl e
      | Inr attrs \<Rightarrow>
          (case py_contains ''Default'' attrs of
             Inl e \<Rightarrow> Inl e
           | Inr present \<Rightarrow>
               if present then
                 (case py_getitem attrs (PyStr ''Default'') of
                    Inl e \<Rightarrow> Inl e
                  | Inr v \<Rightarrow>
                      (case dict_setitem data i v of
                         Inl e \<Rightarrow> Inl e
                       | Inr data' \<Rightarrow> default_loop items rest data'))
               else default_loop items rest data))"

definition cfn_get_default_value_params ::
  "'f env \<Rightarrow> 'f pyval \<Rightarrow> error + (string \<times> 'f pyval) list" where
  "cfn_get_default_value_params E items =
     (if py_truthy E items
      then and_then (py_iter items) (\<lambda>keys. default_loop items keys [])
      else Inr [])"

section \<open>The comparison\<close>

text \<open>
  \<^verbatim>\<open>main\<close> from line 359 on, where the remote and the local data are at hand. Its
  input is the value of the local variables there; its three branches and the closing
  block are one definition each.
\<close>

record 'f locals =
  output_choice :: string
  output_format :: string
  ignore_template_desc :: bool
  ignore_hidden_params :: bool
  cloud_template :: "'f pyval"
  local_template :: "'f pyval"
  cloud_params :: "'f pyval"
  local_params :: "'f pyval"
  cloud_tags :: "'f pyval"
  local_tags :: "'f pyval"

text \<open>Lines 364-379, \<^verbatim>\<open>output_choice == 'template'\<close>.\<close>

definition template_mode ::
  "'f env \<Rightarrow> bool \<Rightarrow> string \<Rightarrow> 'f pyval \<Rightarrow> 'f pyval \<Rightarrow> error + 'f pyval \<times> 'f pyval" where
  "template_mode E ignore_desc fmt cloud_templ local_templ =
     (if ignore_desc then
        and_then (get_json_or_yaml E cloud_templ ''json'') (\<lambda>cloud_dict.
        and_then (get_json_or_yaml E local_templ ''json'') (\<lambda>local_dict.
        and_then (py_pop cloud_dict (PyStr ''Description'')) (\<lambda>cloud_dict.
        and_then (py_pop local_dict (PyStr ''Description'')) (\<lambda>local_dict.
        and_then (get_json_or_yaml E cloud_dict fmt) (\<lambda>cloud_dict.
        and_then (get_json_or_yaml E local_dict fmt) (\<lambda>local_dict.
        Inr (cloud_dict, local_dict)))))))
      else
        and_then (get_json_or_yaml E cloud_templ fmt) (\<lambda>cloud_dict.
        and_then (get_json_or_yaml E local_templ fmt) (\<lambda>local_dict.
        Inr (cloud_dict, local_dict))))"

text \<open>
  Lines 410-411, \<^verbatim>\<open>local_params = templ_def_params.copy()\<close> and
  \<^verbatim>\<open>local_params.update(param_params)\<close>. The argument is the result of
  \<^verbatim>\<open>get_json_or_yaml(local_params, 'json')\<close>, always a dict; the other branch is
  never taken.
\<close>

fun merge_params :: "(string \<times> 'f pyval) list \<Rightarrow> 'f pyval \<Rightarrow> error + 'f pyval" where
  "merge_params templ_def_params (PyDict param_params) =
     Inr (PyDict (dict_update templ_def_params param_params))"
| "merge_params templ_def_params _ = Inl TypeError"

text \<open>Lines 416-418, the loop that removes the hidden parameters from both dicts.\<close>

fun pop_hidden ::
  "'f pyval list \<Rightarrow> 'f pyval \<Rightarrow> 'f pyval \<Rightarrow> error + 'f pyval \<times> 'f pyval" where
  "pop_hidden [] local_ps cloud_ps = Inr (local_ps, cloud_ps)"
| "pop_hidden (key # rest) local_ps cloud_ps =
     (case py_pop local_ps key of
        Inl e \<Rightarrow> Inl e
      | Inr local_ps' \<Rightarrow>
          (case py_pop cloud_ps key of
             Inl e \<Rightarrow> Inl e
           | Inr cloud_ps' \<Rightarrow> pop_hidden rest local_ps' cloud_ps'))"

text \<open>Lines 399-422, \<^verbatim>\<open>output_choice == 'parameter'\<close>.\<close>

definition parameter_mode ::
  "'f env \<Rightarrow> bool \<Rightarrow> string \<Rightarrow> 'f pyval \<Rightarrow> 'f pyval \<Rightarrow> 'f pyval \<Rightarrow> error + 'f pyval \<times> 'f pyval" where
  "parameter_mode E ignore_hidden fmt local_ps local_templ cloud_ps =
     and_then (get_json_or_yaml E local_ps ''json'') (\<lambda>param_params.
     and_then (get_json_or_yaml E local_templ ''json'') (\<lambda>templ.
     and_then (py_get templ ''Parameters'') (\<lambda>templ_params.
     and_then (cfn_get_default_value_params E templ_params) (\<lambda>templ_def_params.
     and_then (merge_params templ_def_params param_params) (\<lambda>local_ps.
     and_then
       (if ignore_hidden then
          and_then (cfn_get_noecho_param_names E templ_params) (\<lambda>hidden_params.
          and_then (get_json_or_yaml E cloud_ps ''json'') (\<lambda>cloud_ps.
          pop_hidden hidden_params local_ps cloud_ps))
        else Inr (local_ps, cloud_ps)) (\<lambda>(local_ps, cloud_ps).
     and_then (get_json_or_yaml E local_ps fmt) (\<lambda>local_dict.
     and_then (get_json_or_yaml E cloud_ps fmt) (\<lambda>cloud_dict.
     Inr (cloud_dict, local_dict)))))))))"

text \<open>Lines 425-428, \<^verbatim>\<open>output_choice == 'tags'\<close>.\<close>

definition tags_mode ::
  "'f env \<Rightarrow> string \<Rightarrow> 'f pyval \<Rightarrow> 'f pyval \<Rightarrow> error + 'f pyval \<times> 'f pyval" where
  "tags_mode E fmt cloud_tgs local_tgs =
     and_then (get_json_or_yaml E cloud_tgs fmt) (\<lambda>cloud_dict.
     and_then (get_json_or_yaml E local_tgs fmt) (\<lambda>local_dict.
     Inr (cloud_dict, local_dict)))"

text \<open>Lines 431-443: the diff and the flag.\<close>

record 'f result =
  diff_before :: "'f pyval"
  diff_after :: "'f pyval"
  changed :: bool

definition diff_result :: "'f env \<Rightarrow> 'f pyval \<Rightarrow> 'f pyval \<Rightarrow> 'f result" where
  "diff_result E cloud_dict local_dict =
     \<lparr>diff_before = cloud_dict, diff_after = local_dict,
      changed = (\<not> py_eq E cloud_dict local_dict)\<rparr>"

text \<open>
  The module's argument check admits the three choices only; with any other, line 433
  would read a variable that was never bound.
\<close>

definition main :: "'f env \<Rightarrow> 'f locals \<Rightarrow> error + 'f result" where
  "main E L =
     and_then
       (if output_choice L = ''template'' then
          template_mode E (ignore_template_desc L) (output_format L)
            (cloud_template L) (local_template L)
        else if output_choice L = ''parameter'' then
          parameter_mode E (ignore_hidden_params L) (output_format L)
            (local_params L) (local_template L) (cloud_params L)
        else if output_choice L = ''tags'' then
          tags_mode E (output_format L) (cloud_tags L) (local_tags L)
        else Inl UnboundLocalError)
       (\<lambda>(cloud_dict, local_dict). Inr (diff_result E cloud_dict local_dict))"

section \<open>The stack data gateway\<close>

text \<open>
  \<^verbatim>\<open>CloudFormationServiceManager\<close>, lines 139-175. The boto3 client is a pair of
  functions: a call returns a response or raises. Of a \<^verbatim>\<open>describe_stacks\<close> response
  the code reads \<^verbatim>\<open>response.get('Stacks')\<close> (a list, or \<^verbatim>\<open>None\<close> when the key is
  missing) and \<^verbatim>\<open>response.get('NextToken')\<close>; of a \<^verbatim>\<open>get_template\<close> response
  \<^verbatim>\<open>response.get('TemplateBody')\<close>.
\<close>

record 'f page =
  stacks :: "'f pyval list option"
  next_token :: "string option"

record 'f client =
  describe_stacks :: "string \<Rightarrow> string option \<Rightarrow> error + 'f page"
  get_template_body :: "string \<Rightarrow> error + 'f pyval option"

text \<open>\<^verbatim>\<open>if next_token\<close>: a token that is missing or empty is false.\<close>

fun token_truthy :: "string option \<Rightarrow> bool" where
  "token_truthy None = False"
| "token_truthy (Some t) = (t \<noteq> [])"

text \<open>
  \<^verbatim>\<open>paginated_response\<close>, lines 162-175. The function calls itself once per page;
  \<open>depth\<close> is the number of calls the interpreter's recursion limit still allows, and
  the call beyond it raises \<^verbatim>\<open>RuntimeError\<close>. \<^verbatim>\<open>result + rest\<close> joins two lists and
  raises \<^verbatim>\<open>TypeError\<close> when one side is \<^verbatim>\<open>None\<close>.
\<close>

fun paginated_response ::
  "nat \<Rightarrow> (string option \<Rightarrow> error + 'f page) \<Rightarrow> string option \<Rightarrow> error + 'f pyval list option" where
  "paginated_response 0 func token = Inl RuntimeError"
| "paginated_response (Suc depth) func token =
     (case func (if token_truthy token then token else None) of
        Inl e \<Rightarrow> Inl e
      | Inr response \<Rightarrow>
          if \<not> token_truthy (next_token response) then Inr (stacks response)
          else
            (case paginated_response depth func (next_token response) of
               Inl e \<Rightarrow> Inl e
             | Inr rest \<Rightarrow>
                 (case (stacks response, rest) of
                    (Some xs, Some ys) \<Rightarrow> Inr (Some (xs @ ys))
                  | _ \<Rightarrow> Inl TypeError)))"

text \<open>\<^verbatim>\<open>try: body except Exception: return dict()\<close>.\<close>

definition except_Exception :: "error + 'f pyval \<Rightarrow> error + 'f pyval" where
  "except_Exception body =
     (case body of
        Inr v \<Rightarrow> Inr v
      | Inl e \<Rightarrow> if is_Exception e then Inr (PyDict []) else Inl e)"

text \<open>
  \<^verbatim>\<open>describe_stack\<close>, lines 139-150. \<^verbatim>\<open>fail_json\<close> prints the message and leaves the
  process with \<^verbatim>\<open>sys.exit(1)\<close>.
\<close>

definition describe_stack :: "nat \<Rightarrow> 'f client \<Rightarrow> string \<Rightarrow> error + 'f pyval" where
  "describe_stack depth client stack_name =
     except_Exception
       (and_then (paginated_response depth (describe_stacks client stack_name) None) (\<lambda>response.
          case response of
            Some (stack # _) \<Rightarrow> Inr stack
          | _ \<Rightarrow> Inl SystemExit))"

text \<open>\<^verbatim>\<open>get_template\<close>, lines 152-160.\<close>

definition get_template :: "'f client \<Rightarrow> string \<Rightarrow> error + 'f pyval" where
  "get_template client stack_name =
     except_Exception
       (and_then (get_template_body client stack_name) (\<lambda>body.
          Inr (case body of None \<Rightarrow> PyNone | Some b \<Rightarrow> b)))"

section \<open>Notions used in the statements and proofs\<close>

text \<open>
  Every leaf is a string or \<^verbatim>\<open>None\<close> and no dict has a key twice: what
  \<open>quote_json\<close> returns, and leaves as it is.
\<close>

fun quoted :: "'f pyval \<Rightarrow> bool" where
  "quoted PyNone = True"
| "quoted (PyStr s) = True"
| "quoted (PyList xs) = list_all quoted xs"
| "quoted (PyDict d) = (distinct (map fst d) \<and> list_all (\<lambda>kv. quoted (snd kv)) d)"
| "quoted _ = False"

text \<open>
  A dict, and every dict reached from it through dict values only, has its keys in
  ascending order and no key \<^verbatim>\<open>self\<close>: what \<open>SortedDict\<close> builds, and builds again
  unchanged. Nothing is asked of a dict inside a list.
\<close>

fun sorted_val :: "'f pyval \<Rightarrow> bool" where
  "sorted_val (PyDict d) =
     (sorted (map fst d) \<and> distinct (map fst d) \<and> ''self'' \<notin> fst ` set d
      \<and> list_all (\<lambda>kv. sorted_val (snd kv)) d)"
| "sorted_val _ = True"

definition canonical :: "'f pyval \<Rightarrow> bool" where
  "canonical v = (quoted v \<and> sorted_val v)"

text \<open>
  A dict of canonical values whose keys are not in order yet, as the merged parameters
  are: no key twice and no key \<^verbatim>\<open>self\<close>.
\<close>

definition canonical_values :: "(string \<times> 'f pyval) list \<Rightarrow> bool" where
  "canonical_values d =
     (distinct (map fst d) \<and> ''self'' \<notin> fst ` set d \<and> list_all (\<lambda>kv. canonical (snd kv)) d)"

text \<open>
  Two documents that differ in the type of scalars only: they have the same shape and
  the same keys in the same order, \<^verbatim>\<open>None\<close> stands against \<^verbatim>\<open>None\<close>, and where
  one has a boolean, a number or a string the other has one with the same \<^verbatim>\<open>str\<close>.
\<close>

fun is_scalar :: "'f pyval \<Rightarrow> bool" where
  "is_scalar (PyBool b) = True"
| "is_scalar (PyInt i) = True"
| "is_scalar (PyFloat x) = True"
| "is_scalar (PyStr s) = True"
| "is_scalar _ = False"



text \<open>No dict of the document has a key twice.\<close>

fun well_formed :: "'f pyval \<Rightarrow> bool" where
  "well_formed (PyList xs) = list_all well_formed xs"
| "well_formed (PyDict d) = (distinct (map fst d) \<and> list_all (\<lambda>kv. well_formed (snd kv)) d)"
| "well_formed _ = True"

text \<open>
  The first document holds \<^verbatim>\<open>None\<close> at one position, an item of a list or the value
  of a key at any depth, and the second holds a string there; they are the same
  everywhere else.
\<close>

inductive null_for_string :: "'f pyval \<Rightarrow> 'f pyval \<Rightarrow> bool" where
  here: "null_for_string PyNone (PyStr s)"
| in_list: "null_for_string a b \<Longrightarrow>
    null_for_string (PyList (us @ a # vs)) (PyList (us @ b # vs))"
| in_dict: "null_for_string a b \<Longrightarrow>
    null_for_string (PyDict (us @ (k, a) # vs)) (PyDict (us @ (k, b) # vs))"

text \<open>The loop of \<open>SortedDict\<close>: the value stored for an item, and one turn.\<close>

definition sd_value :: "'f pyval \<Rightarrow> error + 'f pyval" where
  "sd_value v =
     (case v of
        PyDict sub \<Rightarrow> (case SortedDict sub of Inl e \<Rightarrow> Inl e | Inr s \<Rightarrow> Inr (PyDict s))
      | _ \<Rightarrow> Inr v)"

definition sd_step ::
  "string \<times> 'f pyval \<Rightarrow> error + (string \<times> 'f pyval) list
     \<Rightarrow> error + (string \<times> 'f pyval) list" where
  "sd_step kv self =
     (case self of
        Inl e \<Rightarrow> Inl e
      | Inr d \<Rightarrow>
          (case sd_value (snd kv) of
             Inl e \<Rightarrow> Inl e
           | Inr v \<Rightarrow> Inr (AList.update (fst kv) v d)))"

definition sd_items :: "(string \<times> 'f pyval) list \<Rightarrow> (string \<times> 'f pyval) list \<Rightarrow> bool" where
  "sd_items xs ys =
     list_all2 (\<lambda>kv kv'. fst kv' = fst kv \<and> sd_value (snd kv) = Inr (snd kv')) xs ys"

subsection \<open>An environment for the examples\<close>

text \<open>
  The examples hold no float. \<open>example_loads\<close> reads the three texts they use:
  an empty list, a number, and a template of two keys. \<open>flow_text\<close> writes a document as YAML in
  flow style, the items of a dict in iteration order.
\<close>

fun join :: "string \<Rightarrow> string list \<Rightarrow> string" where
  "join sep [] = []"
| "join sep [x] = x"
| "join sep (x # y # ys) = x @ sep @ join sep (y # ys)"

fun flow_text :: "unit pyval \<Rightarrow> string" where
  "flow_text PyNone = ''null''"
| "flow_text (PyBool b) = (if b then ''true'' else ''false'')"
| "flow_text (PyInt i) = str_int i"
| "flow_text (PyFloat x) = ''.nan''"
| "flow_text (PyStr s) = CHR 0x27 # s @ [CHR 0x27]"
| "flow_text (PyList xs) = ''['' @ join '', '' (map flow_text xs) @ '']''"
| "flow_text (PyDict d) =
     ''{'' @ join '', '' (map (\<lambda>kv. fst kv @ '': '' @ flow_text (snd kv)) d) @ ''}''"

definition example_loads :: "unit pyval \<Rightarrow> error + unit pyval" where
  "example_loads data =
     (if data = PyStr ''[]'' then Inr (PyList [])
      else if data = PyStr ''7'' then Inr (PyInt 7)
      else if data = PyStr ''{Resources: {}, Description: new}''
        then Inr (PyDict [(''Resources'', PyDict []), (''Description'', PyStr ''new'')])
      else Inl ValueError)"

definition example_env :: "unit env" where
  "example_env =
     \<lparr>float_str = (\<lambda>x. ''nan''), float_nonzero = (\<lambda>x. True), float_eq = (\<lambda>x v. False),
      container_str = flow_text, loads = example_loads, yaml_dumps = flow_text\<rparr>"

section \<open>Basic facts\<close>

lemma and_then_Inl [simp]: "and_then (Inl e) f = Inl e"
  by (simp add: and_then_def)

lemma and_then_Inr [simp]: "and_then (Inr x) f = f x"
  by (simp add: and_then_def)

lemma and_then_eq_Inr: "and_then m f = Inr y \<longleftrightarrow> (\<exists>x. m = Inr x \<and> f x = Inr y)"
  by (cases m) simp_all

lemma dict_update_Nil [simp]: "dict_update d [] = d"
  by (simp add: dict_update_def)

lemma dict_update_Cons [simp]:
  "dict_update d ((k, v) # other) = dict_update (AList.update k v d) other"
  by (simp add: dict_update_def)

section \<open>The canonical form is a fixed point\<close>

lemma SortedDict_unfold:
  "SortedDict kwargs =
     (if ''self'' \<in> fst ` set kwargs then Inl TypeError
      else fold sd_step (sort_key fst kwargs) (Inr []))"
  by (subst SortedDict.simps)
    (auto intro!: fold_cong simp: sd_step_def sd_value_def fun_eq_iff
      split: sum.splits pyval.splits)

declare SortedDict.simps [simp del]

lemma fold_sd_step_Inl [simp]: "fold sd_step xs (Inl e) = Inl e"
  by (induction xs) (simp_all add: sd_step_def)

lemma update_new_key: "k \<notin> fst ` set al \<Longrightarrow> AList.update k v al = al @ [(k, v)]"
  by (induction al) auto

lemma dict_update_distinct:
  "distinct (map fst ys) \<Longrightarrow> fst ` set acc \<inter> fst ` set ys = {} \<Longrightarrow> dict_update acc ys = acc @ ys"
proof (induction ys arbitrary: acc)
  case Nil
  show ?case by simp
next
  case (Cons p ys)
  obtain k v where p: "p = (k, v)" by (cases p)
  from Cons.prems have k: "k \<notin> fst ` set acc" and d: "distinct (map fst ys)"
    and kys: "k \<notin> fst ` set ys" and disj: "fst ` set acc \<inter> fst ` set ys = {}"
    by (auto simp: p)
  have "fst ` set (acc @ [(k, v)]) \<inter> fst ` set ys = {}"
    using disj kys by auto
  from Cons.IH [OF d this] show ?case
    by (simp add: p update_new_key [OF k])
qed

lemma dict_of_distinct: "distinct (map fst ys) \<Longrightarrow> dict_of ys = ys"
  using dict_update_distinct [of ys "[]"] by (simp add: dict_of_def dict_update_def)

lemma fold_sd_step_items:
  "sd_items xs ys \<Longrightarrow> fold sd_step xs (Inr acc) = Inr (dict_update acc ys)"
  unfolding sd_items_def
proof (induction xs ys arbitrary: acc rule: list_all2_induct)
  case Nil
  show ?case by simp
next
  case (Cons x xs y ys)
  obtain k v where y: "y = (k, v)" by (cases y)
  from Cons.hyps(1) have "sd_step x (Inr acc) = Inr (AList.update k v acc)"
    by (simp add: sd_step_def y)
  with Cons.IH [of "AList.update k v acc"] show ?case
    by (simp add: y)
qed

lemma fold_sd_step_Inr:
  "fold sd_step xs (Inr acc) = Inr r \<Longrightarrow> \<exists>ys. sd_items xs ys \<and> r = dict_update acc ys"
proof (induction xs arbitrary: acc)
  case Nil
  then show ?case by (simp add: sd_items_def)
next
  case (Cons x xs)
  show ?case
  proof (cases "sd_value (snd x)")
    case (Inl e)
    then have "sd_step x (Inr acc) = Inl e"
      by (simp add: sd_step_def)
    with Cons.prems show ?thesis by simp
  next
    case (Inr v)
    then have "sd_step x (Inr acc) = Inr (AList.update (fst x) v acc)"
      by (simp add: sd_step_def)
    with Cons.prems have "fold sd_step xs (Inr (AList.update (fst x) v acc)) = Inr r"
      by simp
    from Cons.IH [OF this] obtain ys where
      ys: "sd_items xs ys" "r = dict_update (AList.update (fst x) v acc) ys"
      by blast
    then have "sd_items (x # xs) ((fst x, v) # ys)" and "r = dict_update acc ((fst x, v) # ys)"
      using Inr by (simp_all add: sd_items_def)
    then show ?thesis by blast
  qed
qed

lemma sd_items_keys: "sd_items xs ys \<Longrightarrow> map fst ys = map fst xs"
  unfolding sd_items_def by (induction rule: list_all2_induct) simp_all

lemma keys_sort_key: "fst ` set (sort_key fst xs) = fst ` set xs"
  by simp

lemma sorted_map_fst_sort_key: "sorted (map fst (sort_key fst xs))"
  by simp

lemma distinct_keys_sort_key: "distinct (map fst (sort_key fst xs)) = distinct (map fst xs)"
  by (induction xs) (simp_all add: distinct_insort_key)

text \<open>Storing the items of a key-sorted list one by one gives a dict sorted by key.\<close>

lemma dict_update_sorted:
  "sorted (map fst ys) \<Longrightarrow> sorted (map fst acc) \<Longrightarrow> distinct (map fst acc) \<Longrightarrow>
   (\<forall>a\<in>fst ` set acc. \<forall>y\<in>fst ` set ys. a \<le> y) \<Longrightarrow>
   sorted (map fst (dict_update acc ys)) \<and> distinct (map fst (dict_update acc ys))"
proof (induction ys arbitrary: acc)
  case Nil
  then show ?case by simp
next
  case (Cons p ys)
  obtain k v where p: "p = (k, v)" by (cases p)
  let ?acc = "AList.update k v acc"
  have keys: "map fst ?acc = (if k \<in> set (map fst acc) then map fst acc else map fst acc @ [k])"
    by (rule update_keys)
  from Cons.prems have le_k: "\<forall>a\<in>fst ` set acc. a \<le> k"
    by (simp add: p)
  have 1: "sorted (map fst ?acc)"
    using Cons.prems(2) le_k by (auto simp: keys sorted_append)
  have 2: "distinct (map fst ?acc)"
    using Cons.prems(3) by (rule distinct_update)
  from Cons.prems(1) have s: "sorted (map fst ys)" and k_le: "\<forall>y\<in>fst ` set ys. k \<le> y"
    by (auto simp: p)
  have 3: "\<forall>a\<in>fst ` set ?acc. \<forall>y\<in>fst ` set ys. a \<le> y"
  proof (intro ballI)
    fix a y assume a: "a \<in> fst ` set ?acc" and y: "y \<in> fst ` set ys"
    from a have "a = k \<or> a \<in> fst ` set acc"
      using dom_update [of k v acc] by auto
    then show "a \<le> y"
      using Cons.prems(4) k_le y by (auto simp: p)
  qed
  from Cons.IH [OF s 1 2 3] show ?case
    by (simp add: p)
qed

lemma set_dict_update: "set (dict_update acc ys) \<subseteq> set acc \<union> set ys"
proof (induction ys arbitrary: acc)
  case Nil
  show ?case by simp
next
  case (Cons p ys)
  obtain k v where p: "p = (k, v)" by (cases p)
  have "set (AList.update k v acc) \<subseteq> set acc \<union> {(k, v)}"
    by (induction acc) auto
  with Cons.IH [of "AList.update k v acc"] show ?case
    by (auto simp: p)
qed


lemma list_all2_right_ex:
  "list_all2 P xs ys \<Longrightarrow> y \<in> set ys \<Longrightarrow> \<exists>x\<in>set xs. P x y"
  by (induction rule: list_all2_induct) auto

lemma SortedDict_sorted_val:
  "SortedDict kw = Inr r \<Longrightarrow> sorted_val (PyDict r)"
proof (induction kw arbitrary: r rule: SortedDict.induct)
  case (1 kwargs)
  from "1.prems" have noself: "''self'' \<notin> fst ` set kwargs"
    and f: "fold sd_step (sort_key fst kwargs) (Inr []) = Inr r"
    by (auto simp: SortedDict_unfold split: if_splits)
  from fold_sd_step_Inr [OF f] obtain ys where
    ys: "sd_items (sort_key fst kwargs) ys" and r: "r = dict_update [] ys"
    by blast
  have keys: "map fst ys = map fst (sort_key fst kwargs)"
    using ys by (rule sd_items_keys)
  then have "sorted (map fst ys)" by simp
  then have sd: "sorted (map fst r) \<and> distinct (map fst r)"
    unfolding r by (intro dict_update_sorted) simp_all
  have sub: "set r \<subseteq> set ys"
    using set_dict_update [of "[]" ys] by (simp add: r)
  have "fst ` set ys = fst ` set kwargs"
    using keys by (metis list.set_map set_sort)
  with sub noself have ns: "''self'' \<notin> fst ` set r"
    by auto
  have "sorted_val (snd kv')" if "kv' \<in> set r" for kv'
  proof -
    from that sub have "kv' \<in> set ys" by auto
    with ys obtain kv where kv: "kv \<in> set (sort_key fst kwargs)"
      and v: "sd_value (snd kv) = Inr (snd kv')"
      unfolding sd_items_def by (blast dest: list_all2_right_ex)
    show ?thesis
    proof (cases "\<exists>sub. snd kv = PyDict sub")
      case True
      then obtain sub where PyDict: "snd kv = PyDict sub" ..
      with v obtain s where s: "SortedDict sub = Inr s" and kv': "snd kv' = PyDict s"
        by (auto simp: sd_value_def split: sum.splits)
      from "1.IH" [OF _ kv _ PyDict s] noself show ?thesis
        by (cases kv) (simp add: kv')
    next
      case False
      with v have "snd kv' = snd kv"
        by (cases "snd kv") (simp_all add: sd_value_def)
      with False show ?thesis
        by (cases "snd kv") simp_all
    qed
  qed
  then show ?case
    using sd ns by (simp add: list_all_iff)
qed

lemma SortedDict_semi_sorted:
  assumes "distinct (map fst d)" and "''self'' \<notin> fst ` set d"
    and "\<forall>kv\<in>set d. sd_value (snd kv) = Inr (snd kv)"
  shows "SortedDict d = Inr (sort_key fst d)"
proof -
  have "sd_items (sort_key fst d) (sort_key fst d)"
    using assms(3) by (simp add: sd_items_def list_all2_same)
  then have "fold sd_step (sort_key fst d) (Inr []) = Inr (dict_update [] (sort_key fst d))"
    by (rule fold_sd_step_items)
  moreover have "dict_update [] (sort_key fst d) = sort_key fst d"
    using dict_update_distinct [of "sort_key fst d" "[]"] assms(1)
    by (simp add: distinct_keys_sort_key)
  ultimately show ?thesis
    using assms(2) by (simp add: SortedDict_unfold)
qed

lemma sd_value_sorted_val: "sorted_val v \<Longrightarrow> sd_value v = Inr v"
proof (induction v rule: sorted_val.induct)
  case (1 d)
  from "1.prems" have "\<forall>kv\<in>set d. sd_value (snd kv) = Inr (snd kv)"
    using "1.IH" by (auto simp: list_all_iff)
  with "1.prems" have "SortedDict d = Inr (sort_key fst d)"
    by (intro SortedDict_semi_sorted) simp_all
  with "1.prems" show ?case
    by (simp add: sd_value_def sort_key_id_if_sorted)
qed (simp_all add: sd_value_def)

lemma SortedDict_values_sorted:
  assumes "distinct (map fst d)" and "''self'' \<notin> fst ` set d"
    and "\<forall>kv\<in>set d. sorted_val (snd kv)"
  shows "SortedDict d = Inr (sort_key fst d)"
  using assms by (intro SortedDict_semi_sorted) (simp_all add: sd_value_sorted_val)

lemma distinct_dict_update:
  "distinct (map fst acc) \<Longrightarrow> distinct (map fst (dict_update acc ys))"
proof (induction ys arbitrary: acc)
  case Nil
  then show ?case by simp
next
  case (Cons p ys)
  then show ?case
    by (cases p) (simp add: distinct_update)
qed

lemma distinct_dict_of [simp]: "distinct (map fst (dict_of ps))"
  using distinct_dict_update [of "[]" ps] by (simp add: dict_of_def dict_update_def)

lemma set_dict_of: "set (dict_of ps) \<subseteq> set ps"
  using set_dict_update [of "[]" ps] by (simp add: dict_of_def dict_update_def)

lemma quoted_quote_json [simp]: "quoted (quote_json E v)"
proof (induction v)
  case (PyList xs)
  then show ?case by (simp add: list_all_iff)
next
  case (PyDict d)
  have "quoted (snd kv)" if "kv \<in> set (dict_of (map (map_prod id (quote_json E)) d))" for kv
  proof -
    from that set_dict_of have "kv \<in> set (map (map_prod id (quote_json E)) d)"
      by blast
    then obtain k v where "(k, v) \<in> set d" and "kv = (k, quote_json E v)"
      by auto
    with PyDict show ?thesis
      by (auto simp: snds.simps)
  qed
  then show ?case by (simp add: list_all_iff)
qed simp_all

lemma quote_json_quoted: "quoted v \<Longrightarrow> quote_json E v = v"
proof (induction v)
  case (PyList xs)
  then show ?case by (simp add: list_all_iff map_idI)
next
  case (PyDict d)
  then have "map (map_prod id (quote_json E)) d = d"
    by (intro map_idI) (auto simp: list_all_iff snds.simps)
  with PyDict.prems show ?case
    by (simp add: dict_of_distinct)
qed simp_all

lemma sorted_val_quote_json: "sorted_val v \<Longrightarrow> sorted_val (quote_json E v)"
proof (induction v)
  case (PyDict d)
  let ?d = "map (map_prod id (quote_json E)) d"
  have keys: "map fst ?d = map fst d"
    by simp
  with PyDict.prems have "dict_of ?d = ?d"
    by (intro dict_of_distinct) simp
  moreover have "sorted_val (snd kv)" if "kv \<in> set ?d" for kv
  proof -
    from that obtain k v where "(k, v) \<in> set d" and "kv = (k, quote_json E v)"
      by auto
    with PyDict show ?thesis
      by (auto simp: snds.simps list_all_iff)
  qed
  ultimately show ?case
    using PyDict.prems keys by (simp add: list_all_iff image_image)
qed simp_all

lemma write_data_json [simp]: "write_data E ''json'' v = v"
  by (simp add: write_data_def)

lemma read_data_dict [simp]: "read_data E (PyDict d) = Inr (PyDict d)"
  by (simp add: read_data_def)

lemma sort_and_quote_canonical:
  assumes "sort_and_quote E data = Inr r"
  shows "\<exists>d. r = PyDict d \<and> quoted r \<and> sorted_val r"
proof -
  from assms obtain kw s where "data = PyDict kw" and s: "SortedDict kw = Inr s"
    and r: "r = quote_json E (PyDict s)"
    by (auto simp: sort_and_quote_def and_then_eq_Inr split: pyval.splits)
  from s have "sorted_val (PyDict s)"
    by (rule SortedDict_sorted_val)
  then have "sorted_val r"
    unfolding r by (rule sorted_val_quote_json)
  moreover have "quoted r"
    unfolding r by (rule quoted_quote_json)
  ultimately show ?thesis
    by (simp add: r)
qed

lemma get_json_or_yaml_format:
  "get_json_or_yaml E data fmt =
     and_then (get_json_or_yaml E data ''json'') (\<lambda>r. Inr (write_data E fmt r))"
  by (cases "read_data E data"; cases "sort_and_quote E (projr (read_data E data))")
     (simp_all add: get_json_or_yaml_def)

lemma get_json_or_yaml_json:
  assumes "get_json_or_yaml E data ''json'' = Inr r"
  shows "\<exists>d. r = PyDict d \<and> quoted r \<and> sorted_val r"
proof -
  from assms obtain doc where "sort_and_quote E doc = Inr r"
    by (auto simp: get_json_or_yaml_def and_then_eq_Inr)
  then show ?thesis
    by (rule sort_and_quote_canonical)
qed

lemma sort_and_quote_values_canonical:
  assumes "distinct (map fst d)" and "''self'' \<notin> fst ` set d"
    and "\<forall>kv\<in>set d. quoted (snd kv) \<and> sorted_val (snd kv)"
  shows "sort_and_quote E (PyDict d) = Inr (PyDict (sort_key fst d))"
proof -
  have "SortedDict d = Inr (sort_key fst d)"
    using assms by (intro SortedDict_values_sorted) simp_all
  moreover have "quoted (PyDict (sort_key fst d))"
    using assms by (simp add: distinct_keys_sort_key list_all_iff)
  ultimately show ?thesis
    by (simp add: sort_and_quote_def quote_json_quoted del: quote_json.simps)
qed

lemma get_json_or_yaml_values_canonical:
  assumes "distinct (map fst d)" and "''self'' \<notin> fst ` set d"
    and "\<forall>kv\<in>set d. quoted (snd kv) \<and> sorted_val (snd kv)"
  shows "get_json_or_yaml E (PyDict d) fmt = Inr (write_data E fmt (PyDict (sort_key fst d)))"
  using sort_and_quote_values_canonical [OF assms]
  by (simp add: get_json_or_yaml_def)

lemma get_json_or_yaml_canonical:
  assumes "quoted (PyDict d)" and "sorted_val (PyDict d)"
  shows "get_json_or_yaml E (PyDict d) fmt = Inr (write_data E fmt (PyDict d))"
proof -
  from assms have "sort_key fst d = d"
    by (simp add: sort_key_id_if_sorted)
  with get_json_or_yaml_values_canonical [of d E fmt] assms show ?thesis
    by (simp add: list_all_iff)
qed

lemma py_eq_refl: "quoted v \<Longrightarrow> py_eq E v v"
proof (induction v)
  case (PyList xs)
  then show ?case by (simp add: list_all_iff list_all2_same)
next
  case (PyDict d)
  have "case map_of d k of None \<Rightarrow> False | Some w \<Rightarrow> py_eq E v w"
    if "(k, v) \<in> set d" for k v
  proof -
    from that PyDict.prems have "map_of d k = Some v"
      by simp
    moreover from that PyDict have "py_eq E v v"
      by (auto simp: list_all_iff snds.simps)
    ultimately show ?thesis by simp
  qed
  then show ?case
    by (auto simp: list_all_iff)
qed simp_all

text \<open>A key \<^verbatim>\<open>self\<close> in the document, or in a dict below it, ends the run.\<close>

lemma keyword_self_raises:
  "SortedDict [(''self'', v)] = Inl TypeError"
  "SortedDict [(''Resources'', PyDict [(''self'', v)])] = Inl TypeError"
  by (simp_all add: SortedDict_unfold sd_step_def sd_value_def)

section \<open>Looking a key up in the canonical form\<close>

lemma list_all2_left_ex:
  "list_all2 P xs ys \<Longrightarrow> x \<in> set xs \<Longrightarrow> \<exists>y\<in>set ys. P x y"
  by (induction rule: list_all2_induct) auto

lemma SortedDict_distinct_items:
  assumes "SortedDict d = Inr r" and "distinct (map fst d)"
  shows "sd_items (sort_key fst d) r"
proof -
  from assms(1) have "fold sd_step (sort_key fst d) (Inr []) = Inr r"
    by (auto simp: SortedDict_unfold split: if_splits)
  from fold_sd_step_Inr [OF this] obtain ys where
    ys: "sd_items (sort_key fst d) ys" and r: "r = dict_update [] ys"
    by blast
  from ys have "map fst ys = map fst (sort_key fst d)"
    by (rule sd_items_keys)
  with assms(2) have "distinct (map fst ys)"
    by (simp add: distinct_keys_sort_key)
  then have "dict_update [] ys = ys"
    using dict_update_distinct [of ys "[]"] by simp
  with ys r show ?thesis by simp
qed

lemma SortedDict_lookup:
  assumes "SortedDict d = Inr r" and "distinct (map fst d)" and "(k, v) \<in> set d"
  shows "\<exists>v'. sd_value v = Inr v' \<and> map_of r k = Some v'"
proof -
  have items: "sd_items (sort_key fst d) r"
    using assms(1,2) by (rule SortedDict_distinct_items)
  then have "map fst r = map fst (sort_key fst d)"
    by (rule sd_items_keys)
  with assms(2) have dr: "distinct (map fst r)"
    by (simp add: distinct_keys_sort_key)
  from assms(3) have "(k, v) \<in> set (sort_key fst d)"
    by simp
  with items obtain y where "y \<in> set r" and "fst y = k" and "sd_value v = Inr (snd y)"
    unfolding sd_items_def by (fastforce dest: list_all2_left_ex)
  with dr show ?thesis
    by (cases y) auto
qed

lemma SortedDict_succeeds:
  assumes "''self'' \<notin> fst ` set d" and "\<forall>kv\<in>set d. \<exists>v'. sd_value (snd kv) = Inr v'"
  shows "\<exists>r. SortedDict d = Inr r"
proof -
  let ?ys = "map (\<lambda>kv. (fst kv, projr (sd_value (snd kv)))) (sort_key fst d)"
  have "sd_items (sort_key fst d) ?ys"
    unfolding sd_items_def list_all2_map2
    using assms(2) by (intro list_all2_same [THEN iffD2]) auto
  then have "fold sd_step (sort_key fst d) (Inr []) = Inr (dict_update [] ?ys)"
    by (rule fold_sd_step_items)
  with assms(1) show ?thesis
    by (simp add: SortedDict_unfold)
qed

lemma SortedDict_values_succeed:
  assumes "SortedDict d = Inr r" and "kv \<in> set d"
  shows "''self'' \<notin> fst ` set d \<and> (\<exists>v'. sd_value (snd kv) = Inr v')"
proof -
  from assms(1) have ns: "''self'' \<notin> fst ` set d"
    and "fold sd_step (sort_key fst d) (Inr []) = Inr r"
    by (auto simp: SortedDict_unfold split: if_splits)
  from fold_sd_step_Inr [OF this(2)] obtain ys where "sd_items (sort_key fst d) ys"
    by blast
  moreover from assms(2) have "kv \<in> set (sort_key fst d)"
    by simp
  ultimately have "\<exists>v'. sd_value (snd kv) = Inr v'"
    unfolding sd_items_def by (blast dest: list_all2_left_ex)
  with ns show ?thesis by simp
qed

lemma quote_json_distinct_dict:
  "distinct (map fst d) \<Longrightarrow>
   quote_json E (PyDict d) = PyDict (map (map_prod id (quote_json E)) d)"
  by (simp add: dict_of_distinct)

lemma py_eq_dict_entry:
  assumes "py_eq E (PyDict x) (PyDict y)" and "(k, v) \<in> set x" and "map_of y k = Some w"
  shows "py_eq E v w"
  using assms by (auto simp: list_all_iff)

lemma py_eq_quoted_dicts:
  assumes "py_eq E (quote_json E (PyDict x)) (quote_json E (PyDict y))"
    and "distinct (map fst x)" and "distinct (map fst y)"
    and "(k, v) \<in> set x" and "(k, w) \<in> set y"
  shows "py_eq E (quote_json E v) (quote_json E w)"
proof -
  let ?q = "map_prod id (quote_json E)"
  from assms(1-3) have "py_eq E (PyDict (map ?q x)) (PyDict (map ?q y))"
    by (simp add: dict_of_distinct)
  moreover from assms(4) have "(k, quote_json E v) \<in> set (map ?q x)"
    by force
  moreover from assms(3,5) have "map_of (map ?q y) k = Some (quote_json E w)"
    by (simp add: map_of_eq_Some_iff [of "map ?q y"] image_iff)
       (metis map_prod_simp id_apply)
  ultimately show ?thesis
    by (rule py_eq_dict_entry)
qed

section \<open>The two loops return for a mapping only\<close>

lemma seq_index_mem: "seq_index xs i = Inr x \<Longrightarrow> x \<in> set xs"
  by (auto simp: seq_index_def split: if_splits)

lemma py_getitem_list:
  assumes "py_getitem (PyList xs) i = Inr attrs"
  shows "attrs \<in> set xs \<and> ((\<exists>n. i = PyInt n) \<or> (\<exists>b. i = PyBool b))"
  using assms by (cases i) (auto dest: seq_index_mem)

lemma py_contains_number: "py_contains name (PyInt n) = Inl TypeError"
  "py_contains name (PyBool b) = Inl TypeError"
  by simp_all

lemma default_loop_every_key:
  "default_loop items keys data = Inr r \<Longrightarrow> i \<in> set keys \<Longrightarrow>
   \<exists>attrs present. py_getitem items i = Inr attrs \<and> py_contains ''Default'' attrs = Inr present"
proof (induction keys arbitrary: data)
  case Nil
  then show ?case by simp
next
  case (Cons k keys)
  from Cons.prems(1) obtain attrs present where
    k: "py_getitem items k = Inr attrs" "py_contains ''Default'' attrs = Inr present"
    by (auto split: sum.splits)
  from Cons.prems(1) k obtain data' where "default_loop items keys data' = Inr r"
    by (auto split: sum.splits if_splits)
  with Cons.IH Cons.prems(2) k show ?case
    by auto
qed

lemma noecho_loop_every_key:
  "noecho_loop E items keys data = Inr r \<Longrightarrow> i \<in> set keys \<Longrightarrow>
   \<exists>attrs present. py_getitem items i = Inr attrs \<and> py_contains ''NoEcho'' attrs = Inr present"
proof (induction keys arbitrary: data)
  case Nil
  then show ?case by simp
next
  case (Cons k keys)
  from Cons.prems(1) obtain attrs present where
    k: "py_getitem items k = Inr attrs" "py_contains ''NoEcho'' attrs = Inr present"
    by (auto split: sum.splits)
  from Cons.prems(1) k obtain data' where "noecho_loop E items keys data' = Inr r"
    by (auto split: sum.splits if_splits)
  with Cons.IH Cons.prems(2) k show ?case
    by auto
qed

lemma list_items_raise:
  assumes "xs \<noteq> []"
    and "\<And>i. i \<in> set xs \<Longrightarrow>
      \<exists>attrs present. py_getitem (PyList xs) i = Inr attrs \<and> py_contains name attrs = Inr present"
  shows False
proof -
  from assms(1) obtain i where "i \<in> set xs"
    by (cases xs) auto
  from assms(2) [OF this] obtain attrs present where
    a: "py_getitem (PyList xs) i = Inr attrs" and c: "py_contains name attrs = Inr present"
    by blast
  from a have "attrs \<in> set xs"
    by (simp add: py_getitem_list)
  from assms(2) [OF this] obtain x where "py_getitem (PyList xs) attrs = Inr x"
    by blast
  then have "(\<exists>n. attrs = PyInt n) \<or> (\<exists>b. attrs = PyBool b)"
    by (simp add: py_getitem_list)
  with c show False
    by auto
qed

text \<open>
  Where \<open>items\<close> is true, both functions return for a dict only: a number cannot be
  iterated, a string cannot be indexed by its characters, and a list would have to
  hold integers that index integers. So the key of \<open>dict_setitem\<close> is a string
  whenever \<open>cfn_get_default_value_params\<close> returns.
\<close>

lemma default_params_of_mapping:
  assumes "cfn_get_default_value_params E items = Inr r" and "py_truthy E items"
  shows "\<exists>d. items = PyDict d"
proof (cases items)
  case (PyList xs)
  with assms have "xs \<noteq> []" and "default_loop (PyList xs) xs [] = Inr r"
    by (simp_all add: cfn_get_default_value_params_def)
  then have False
    using list_items_raise [of xs "''Default''"] default_loop_every_key [of "PyList xs" xs "[]" r]
    by blast
  then show ?thesis ..
next
  case (PyStr s)
  with assms obtain c cs where "s = c # cs"
    by (cases s) auto
  with assms PyStr show ?thesis
    by (simp add: cfn_get_default_value_params_def)
qed (use assms in \<open>simp_all add: cfn_get_default_value_params_def\<close>)

lemma noecho_names_of_mapping:
  assumes "cfn_get_noecho_param_names E items = Inr r" and "py_truthy E items"
  shows "\<exists>d. items = PyDict d"
proof (cases items)
  case (PyList xs)
  with assms have "xs \<noteq> []" and "noecho_loop E (PyList xs) xs [] = Inr r"
    by (simp_all add: cfn_get_noecho_param_names_def)
  then have False
    using list_items_raise [of xs "''NoEcho''"] noecho_loop_every_key [of E "PyList xs" xs "[]" r]
    by blast
  then show ?thesis ..
next
  case (PyStr s)
  with assms obtain c cs where "s = c # cs"
    by (cases s) auto
  with assms PyStr show ?thesis
    by (simp add: cfn_get_noecho_param_names_def)
qed (use assms in \<open>simp_all add: cfn_get_noecho_param_names_def\<close>)

section \<open>Removing keys from a canonical dict\<close>

lemma delete_filter: "AList.delete k d = filter (\<lambda>kv. fst kv \<noteq> k) d"
  by (induction d) auto

lemma quoted_filter: "quoted (PyDict d) \<Longrightarrow> quoted (PyDict (filter P d))"
  by (simp add: distinct_map_filter list_all_iff)

lemma sorted_val_filter: "sorted_val (PyDict d) \<Longrightarrow> sorted_val (PyDict (filter P d))"
  by (auto simp: distinct_map_filter sorted_filter list_all_iff)

lemma get_json_or_yaml_filter:
  assumes "quoted (PyDict d)" and "sorted_val (PyDict d)"
  shows "get_json_or_yaml E (PyDict (filter P d)) fmt = Inr (write_data E fmt (PyDict (filter P d)))"
  using assms by (intro get_json_or_yaml_canonical quoted_filter sorted_val_filter)

lemma sd_items_filter:
  "sd_items xs ys \<Longrightarrow>
   sd_items (filter (\<lambda>kv. P (fst kv)) xs) (filter (\<lambda>kv. P (fst kv)) ys)"
  unfolding sd_items_def by (induction rule: list_all2_induct) simp_all

lemma sd_items_unique: "sd_items xs ys \<Longrightarrow> sd_items xs zs \<Longrightarrow> ys = zs"
  unfolding sd_items_def
proof (induction xs ys arbitrary: zs rule: list_all2_induct)
  case Nil
  then show ?case by simp
next
  case (Cons x xs y ys)
  from Cons.prems obtain z zs' where zs: "zs = z # zs'"
    and z: "fst z = fst x \<and> sd_value (snd x) = Inr (snd z)"
    and rest: "list_all2 (\<lambda>kv kv'. fst kv' = fst kv \<and> sd_value (snd kv) = Inr (snd kv')) xs zs'"
    by (cases zs) simp_all
  from Cons.hyps(1) z have "y = z"
    by (simp add: prod_eq_iff)
  with Cons.IH [OF rest] show ?case
    by (simp add: zs)
qed

text \<open>
  Removing keys from the document before it is sorted, or from the sorted dict, is
  the same.
\<close>

lemma SortedDict_filter:
  assumes "SortedDict a = Inr ra" and "distinct (map fst a)"
  shows "sd_items (sort_key fst (filter (\<lambda>kv. P (fst kv)) a)) (filter (\<lambda>kv. P (fst kv)) ra)"
proof -
  have "sd_items (sort_key fst a) ra"
    using assms by (rule SortedDict_distinct_items)
  then have "sd_items (filter (\<lambda>kv. P (fst kv)) (sort_key fst a)) (filter (\<lambda>kv. P (fst kv)) ra)"
    by (rule sd_items_filter)
  then show ?thesis
    by (simp add: filter_sort)
qed

lemma canonical_filter_eq:
  assumes "get_json_or_yaml E x ''json'' = Inr (PyDict ca)"
    and "get_json_or_yaml E y ''json'' = Inr (PyDict cb)"
    and "read_data E x = Inr (PyDict a)" and "read_data E y = Inr (PyDict b)"
    and "distinct (map fst a)" and "distinct (map fst b)"
    and "filter (\<lambda>kv. P (fst kv)) a = filter (\<lambda>kv. P (fst kv)) b"
  shows "filter (\<lambda>kv. P (fst kv)) ca = filter (\<lambda>kv. P (fst kv)) cb"
proof -
  let ?f = "filter (\<lambda>kv. P (fst kv))" and ?q = "map (map_prod id (quote_json E))"
  from assms(1,3) obtain ra where ra: "SortedDict a = Inr ra"
    and ca: "PyDict ca = quote_json E (PyDict ra)"
    by (auto simp: get_json_or_yaml_def sort_and_quote_def and_then_eq_Inr)
  from assms(2,4) obtain rb where rb: "SortedDict b = Inr rb"
    and cb: "PyDict cb = quote_json E (PyDict rb)"
    by (auto simp: get_json_or_yaml_def sort_and_quote_def and_then_eq_Inr)
  have "sd_items (sort_key fst (?f a)) (?f ra)" and "sd_items (sort_key fst (?f b)) (?f rb)"
    using ra rb assms(5,6) by (simp_all add: SortedDict_filter)
  with assms(7) have eq: "?f ra = ?f rb"
    by (simp add: sd_items_unique)
  have "distinct (map fst ra)" and "distinct (map fst rb)"
    using SortedDict_sorted_val [OF ra] SortedDict_sorted_val [OF rb] by simp_all
  with ca cb have "ca = ?q ra" and "cb = ?q rb"
    by (simp_all add: dict_of_distinct)
  moreover have "?f (?q r) = ?q (?f r)" for r :: "(string \<times> 'a pyval) list"
    by (induction r) auto
  ultimately show ?thesis
    using eq by simp
qed

lemma canonical_lookup_scalar:
  assumes "get_json_or_yaml E x ''json'' = Inr (PyDict ca)"
    and "read_data E x = Inr (PyDict a)" and "distinct (map fst a)"
    and "map_of a k = Some v" and "is_scalar v"
  shows "map_of ca k = Some (PyStr (py_str E v))"
proof -
  from assms(1,2) obtain ra where ra: "SortedDict a = Inr ra"
    and ca: "PyDict ca = quote_json E (PyDict ra)"
    by (auto simp: get_json_or_yaml_def sort_and_quote_def and_then_eq_Inr)
  from assms(4) have "(k, v) \<in> set a"
    by (rule map_of_SomeD)
  from SortedDict_lookup [OF ra assms(3) this] assms(5) have "map_of ra k = Some v"
    by (cases v) (simp_all add: sd_value_def)
  moreover have "distinct (map fst ra)"
    using SortedDict_sorted_val [OF ra] by simp
  ultimately have "map_of (map (map_prod id (quote_json E)) ra) k = Some (quote_json E v)"
    and "ca = map (map_prod id (quote_json E)) ra"
    using ca by (simp_all add: dict_of_distinct map_of_eq_Some_iff image_iff) force
  with assms(5) show ?thesis
    by (cases v) simp_all
qed

section \<open>Merging defaults and overrides\<close>

lemma keys_dict_update:
  "fst ` set (dict_update d other) = fst ` set d \<union> fst ` set other"
proof (induction other arbitrary: d)
  case Nil
  show ?case by simp
next
  case (Cons p other)
  obtain k v where p: "p = (k, v)" by (cases p)
  have "fst ` set (AList.update k v d) = insert k (fst ` set d)"
    using dom_update [of k v d] by simp
  with Cons.IH [of "AList.update k v d"] show ?case
    by (auto simp: p)
qed

lemma lookup_dict_update_other:
  "k \<notin> fst ` set other \<Longrightarrow> map_of (dict_update d other) k = map_of d k"
proof (induction other arbitrary: d)
  case Nil
  show ?case by simp
next
  case (Cons p other)
  obtain k' v where p: "p = (k', v)" by (cases p)
  from Cons.prems have "k \<noteq> k'" and "k \<notin> fst ` set other"
    by (auto simp: p)
  with Cons.IH [of "AList.update k' v d"] show ?case
    by (simp add: p update_conv')
qed

lemma lookup_dict_update_override:
  "distinct (map fst other) \<Longrightarrow> map_of other k = Some v \<Longrightarrow>
   map_of (dict_update d other) k = Some v"
proof (induction other arbitrary: d)
  case Nil
  then show ?case by simp
next
  case (Cons p other)
  obtain k' v' where p: "p = (k', v')" by (cases p)
  show ?case
  proof (cases "k = k'")
    case True
    with Cons.prems have "v' = v" and "k \<notin> fst ` set other"
      by (auto simp: p)
    then show ?thesis
      using lookup_dict_update_other [of k other "AList.update k' v' d"] True
      by (simp add: p update_conv')
  next
    case False
    with Cons.prems have "distinct (map fst other)" and "map_of other k = Some v"
      by (auto simp: p)
    from Cons.IH [OF this] show ?thesis
      by (simp add: p)
  qed
qed

lemma lookup_dict_update:
  assumes "distinct (map fst other)"
  shows "map_of (dict_update d other) k =
    (case map_of other k of Some v \<Rightarrow> Some v | None \<Rightarrow> map_of d k)"
proof (cases "map_of other k")
  case None
  then have "k \<notin> fst ` set other"
    by (simp add: map_of_eq_None_iff)
  then show ?thesis
    using None by (simp add: lookup_dict_update_other)
next
  case (Some v)
  then show ?thesis
    using assms by (simp add: lookup_dict_update_override)
qed

text \<open>
  C4. Lines 410-411 merge the template's defaults with the given parameters. For
  every dict of defaults and every dict of overrides (a dict has no key twice), the
  merged dict has exactly the keys of both; a key of the overrides has the override's
  value, also when the defaults have it too, and any other key has the default's value.
\<close>

theorem merge_override_wins:
  assumes "distinct (map fst overrides)"
  shows "\<exists>merged. merge_params defaults (PyDict overrides) = Inr (PyDict merged)
      \<and> fst ` set merged = fst ` set defaults \<union> fst ` set overrides
      \<and> (\<forall>k. map_of merged k =
            (case map_of overrides k of Some v \<Rightarrow> Some v | None \<Rightarrow> map_of defaults k))"
  using assms by (simp add: keys_dict_update lookup_dict_update)

theorem merge_override_wins_witness:
  "merge_params [(''X'', PyStr ''1''), (''Y'', PyStr ''2'')] (PyDict [(''Y'', PyStr ''9'')])
     = Inr (PyDict [(''X'', PyStr ''1''), (''Y'', PyStr ''9'' :: unit pyval)])
   \<and> map_of (dict_update [(''X'', PyStr ''1''), (''Y'', PyStr ''2'')]
        [(''Y'', PyStr ''9'' :: unit pyval)]) ''Y'' = Some (PyStr ''9'')"
  using merge_override_wins
    [of "[(''Y'', PyStr ''9'' :: unit pyval)]" "[(''X'', PyStr ''1''), (''Y'', PyStr ''2'')]"]
  by simp

section \<open>The gateway degrades to an empty result\<close>

lemma except_Exception_cases:
  "except_Exception body = Inl e \<Longrightarrow> \<not> is_Exception e"
  by (auto simp: except_Exception_def split: sum.splits if_splits)

lemma paginated_response_first_call:
  "func None = Inl e \<Longrightarrow> paginated_response (Suc depth) func None = Inl e"
  by simp

text \<open>
  C9. When the fetch of the stack description raises an exception \<open>e\<close> (the client
  call of any page, the recursion limit, or the join of two pages), \<open>describe_stack\<close>
  returns the empty dict; when the client's \<^verbatim>\<open>get_template\<close> raises,
  \<open>get_template\<close> returns the empty dict. Neither operation ever hands an
  \<^verbatim>\<open>Exception\<close> on to its caller.
\<close>

theorem gateway_returns_empty_on_error:
  assumes "is_Exception e"
  shows "(paginated_response depth (describe_stacks client name) None = Inl e
          \<longrightarrow> describe_stack depth client name = Inr (PyDict []))
      \<and> (get_template_body client name = Inl e
          \<longrightarrow> get_template client name = Inr (PyDict []))
      \<and> describe_stack depth client name \<noteq> Inl e
      \<and> get_template client name \<noteq> Inl e"
  using assms except_Exception_cases
  by (auto simp: describe_stack_def get_template_def except_Exception_def)

theorem gateway_returns_empty_on_error_witness:
  "is_Exception ClientError
   \<and> describe_stack 1000
       \<lparr>describe_stacks = (\<lambda>name token. Inl ClientError),
        get_template_body = (\<lambda>name. Inl ClientError)\<rparr> ''vpc-prod''
     = Inr (PyDict [] :: unit pyval)
   \<and> get_template
       \<lparr>describe_stacks = (\<lambda>name token. Inl ClientError),
        get_template_body = (\<lambda>name. Inl ClientError)\<rparr> ''vpc-prod''
     = Inr (PyDict [] :: unit pyval)"
proof -
  let ?c = "\<lparr>describe_stacks = (\<lambda>name token. Inl ClientError),
        get_template_body = (\<lambda>name. Inl ClientError)\<rparr> :: unit client"
  have e: "is_Exception ClientError" by simp
  have p: "paginated_response 1000 (describe_stacks ?c ''vpc-prod'') None = Inl ClientError"
    using paginated_response_first_call [of "describe_stacks ?c ''vpc-prod''" ClientError 999]
    by simp
  have g: "get_template_body ?c ''vpc-prod'' = Inl ClientError" by simp
  from gateway_returns_empty_on_error [OF e, of 1000 ?c "''vpc-prod''"] p g e
  show ?thesis by simp
qed

section \<open>What the canonical form accepts\<close>

lemma get_json_or_yaml_not_mapping:
  assumes "read_data E data = Inr doc" and "\<forall>d. doc \<noteq> PyDict d"
  shows "get_json_or_yaml E data fmt = Inl TypeError"
  using assms by (cases doc) (simp_all add: get_json_or_yaml_def sort_and_quote_def)

lemma get_json_or_yaml_empty:
  "get_json_or_yaml E (PyDict []) fmt = Inr (write_data E fmt (PyDict []))"
  by (simp add: get_json_or_yaml_canonical)

text \<open>
  C8, as the code has it. The empty mapping is canonicalized without an exception
  and comes back as the empty mapping (for the format \<^verbatim>\<open>yaml\<close>, as its text). A
  document that is not a mapping is rejected: when the data read is a list, the empty
  one too, or a string, a number or \<^verbatim>\<open>None\<close>, \<open>get_json_or_yaml\<close> raises
  \<^verbatim>\<open>TypeError\<close> at \<^verbatim>\<open>SortedDict(**data)\<close>.
\<close>

theorem canonical_form_needs_mapping:
  "get_json_or_yaml E (PyDict []) fmt = Inr (write_data E fmt (PyDict []))
   \<and> (read_data E data = Inr doc \<and> (\<forall>d. doc \<noteq> PyDict d)
        \<longrightarrow> get_json_or_yaml E data fmt = Inl TypeError)"
  using get_json_or_yaml_not_mapping [of E data doc fmt] get_json_or_yaml_empty [of E fmt]
  by blast

theorem canonical_form_needs_mapping_witness:
  "read_data example_env (PyStr ''[]'') = Inr (PyList [])
   \<and> (\<forall>d. PyList [] \<noteq> (PyDict d :: unit pyval))
   \<and> get_json_or_yaml example_env (PyStr ''[]'') ''yaml'' = Inl TypeError
   \<and> get_json_or_yaml example_env (PyDict []) ''yaml'' = Inr (PyStr ''{}'')"
proof -
  have r: "read_data example_env (PyStr ''[]'') = Inr (PyList [])"
    by (simp add: read_data_def example_env_def example_loads_def)
  have n: "\<forall>d. PyList [] \<noteq> (PyDict d :: unit pyval)"
    by simp
  have w: "write_data example_env ''yaml'' (PyDict []) = PyStr ''{}''"
    by (simp add: write_data_def example_env_def)
  from canonical_form_needs_mapping [of example_env "''yaml''" "PyStr ''[]''" "PyList []"] r n w
  show ?thesis by simp
qed

text \<open>
  The claim as the specification has it fails: the text \<^verbatim>\<open>[]\<close> is read as the
  empty list and the text \<^verbatim>\<open>7\<close> as a number, and neither is canonicalized.
\<close>

theorem empty_sequence_and_scalar_raise:
  "loads example_env (PyStr ''[]'') = Inr (PyList [])
   \<and> get_json_or_yaml example_env (PyStr ''[]'') ''json'' = Inl TypeError
   \<and> loads example_env (PyStr ''7'') = Inr (PyInt 7)
   \<and> get_json_or_yaml example_env (PyStr ''7'') ''json'' = Inl TypeError"
  by (simp add: get_json_or_yaml_def read_data_def sort_and_quote_def
      example_env_def example_loads_def)

section \<open>Key order below a list\<close>

text \<open>
  C1 at a document whose mapping is reached through a list. The two templates
  \<^verbatim>\<open>{"Metadata": {"Order": [{"i": "2", "a": "1"}]}}\<close> and
  \<^verbatim>\<open>{"Metadata": {"Order": [{"a": "1", "i": "2"}]}}\<close> differ in the order of two keys
  only. \<open>SortedDict\<close> stores the list as it is, so each inner dict keeps the order it
  came in, and for the format \<^verbatim>\<open>yaml\<close> the two results are the texts of two dicts
  in different key order. A dict that is the value of a dict is sorted (the last
  equation).
\<close>

theorem dict_in_list_keeps_key_order:
  "get_json_or_yaml E
     (PyDict [(''Metadata'', PyDict [(''Order'',
        PyList [PyDict [(''i'', PyStr ''2''), (''a'', PyStr ''1'')]])])]) ''yaml''
     = Inr (PyStr (yaml_dumps E
         (PyDict [(''Metadata'', PyDict [(''Order'',
            PyList [PyDict [(''i'', PyStr ''2''), (''a'', PyStr ''1'')]])])])))
   \<and> get_json_or_yaml E
     (PyDict [(''Metadata'', PyDict [(''Order'',
        PyList [PyDict [(''a'', PyStr ''1''), (''i'', PyStr ''2'')]])])]) ''yaml''
     = Inr (PyStr (yaml_dumps E
         (PyDict [(''Metadata'', PyDict [(''Order'',
            PyList [PyDict [(''a'', PyStr ''1''), (''i'', PyStr ''2'')]])])])))
   \<and> get_json_or_yaml E
     (PyDict [(''Metadata'', PyDict [(''i'', PyStr ''2''), (''a'', PyStr ''1'')])]) ''yaml''
     = Inr (PyStr (yaml_dumps E
         (PyDict [(''Metadata'', PyDict [(''a'', PyStr ''1''), (''i'', PyStr ''2'')])])))"
  by (simp add: get_json_or_yaml_def sort_and_quote_def SortedDict_unfold sd_step_def
      sd_value_def write_data_def dict_of_def)

text \<open>
  With a writer that lists the items of a dict in iteration order, as the libraries
  do, \<open>main\<close> reports the two templates as changed.
\<close>

lemma dict_in_list_changed:
  "main example_env
     \<lparr>output_choice = ''template'', output_format = ''yaml'',
      ignore_template_desc = False, ignore_hidden_params = False,
      cloud_template = PyDict [(''Metadata'', PyDict [(''Order'',
        PyList [PyDict [(''i'', PyStr ''2''), (''a'', PyStr ''1'')]])])],
      local_template = PyDict [(''Metadata'', PyDict [(''Order'',
        PyList [PyDict [(''a'', PyStr ''1''), (''i'', PyStr ''2'')]])])],
      cloud_params = PyDict [], local_params = PyDict [],
      cloud_tags = PyDict [], local_tags = PyDict []\<rparr>
   = Inr \<lparr>diff_before = PyStr ''{Metadata: {Order: [{i: '2', a: '1'}]}}'',
          diff_after = PyStr ''{Metadata: {Order: [{a: '1', i: '2'}]}}'',
          changed = True\<rparr>"
  by (simp add: main_def template_mode_def diff_result_def get_json_or_yaml_def
      sort_and_quote_def SortedDict_unfold sd_step_def sd_value_def write_data_def dict_of_def
      example_env_def)

text \<open>In the format \<^verbatim>\<open>json\<close> the two results are dicts, which \<^verbatim>\<open>==\<close> finds equal.\<close>

lemma dict_in_list_equal_as_dicts:
  "main example_env
     \<lparr>output_choice = ''template'', output_format = ''json'',
      ignore_template_desc = False, ignore_hidden_params = False,
      cloud_template = PyDict [(''Metadata'', PyDict [(''Order'',
        PyList [PyDict [(''i'', PyStr ''2''), (''a'', PyStr ''1'')]])])],
      local_template = PyDict [(''Metadata'', PyDict [(''Order'',
        PyList [PyDict [(''a'', PyStr ''1''), (''i'', PyStr ''2'')]])])],
      cloud_params = PyDict [], local_params = PyDict [],
      cloud_tags = PyDict [], local_tags = PyDict []\<rparr>
   = Inr \<lparr>diff_before = PyDict [(''Metadata'', PyDict [(''Order'',
            PyList [PyDict [(''i'', PyStr ''2''), (''a'', PyStr ''1'')]])])],
          diff_after = PyDict [(''Metadata'', PyDict [(''Order'',
            PyList [PyDict [(''a'', PyStr ''1''), (''i'', PyStr ''2'')]])])],
          changed = False\<rparr>"
  by (simp add: main_def template_mode_def diff_result_def get_json_or_yaml_def
      sort_and_quote_def SortedDict_unfold sd_step_def sd_value_def write_data_def dict_of_def)

section \<open>Hidden parameters\<close>

lemma noecho_loop_declarations:
  assumes "distinct (map fst decls)"
    and "\<forall>kv\<in>set decls. \<exists>attrs. snd kv = PyDict attrs"
    and "set xs \<subseteq> set decls"
  shows "noecho_loop E (PyDict decls) (map (\<lambda>kv. PyStr (fst kv)) xs) data =
    Inr (data @ map (\<lambda>kv. PyStr (fst kv))
      (filter (\<lambda>kv. \<exists>attrs flag. snd kv = PyDict attrs \<and> map_of attrs ''NoEcho'' = Some flag
          \<and> lower (py_str E flag) = ''true'') xs))"
  using assms(3)
proof (induction xs arbitrary: data)
  case Nil
  show ?case by simp
next
  case (Cons x xs)
  obtain k v where x: "x = (k, v)" by (cases x)
  from Cons.prems have mem: "(k, v) \<in> set decls" and rest: "set xs \<subseteq> set decls"
    by (simp_all add: x)
  from mem assms(2) obtain attrs where v: "v = PyDict attrs"
    by auto
  from mem assms(1) have get: "py_getitem (PyDict decls) (PyStr k) = Inr (PyDict attrs)"
    by (simp add: v)
  show ?case
  proof (cases "map_of attrs ''NoEcho''")
    case None
    then have "''NoEcho'' \<notin> fst ` set attrs"
      by (simp add: map_of_eq_None_iff)
    with None get Cons.IH [OF rest, of data] show ?thesis
      by (simp add: x v)
  next
    case (Some flag)
    then have "''NoEcho'' \<in> fst ` set attrs"
      by (metis map_of_eq_None_iff option.distinct(1))
    with Some get Cons.IH [OF rest, of data] Cons.IH [OF rest, of "data @ [PyStr k]"]
    show ?thesis
      by (simp add: x v)
  qed
qed

text \<open>
  C6. For every parameter declaration block, a dict from parameter names to dicts of
  attributes, \<open>cfn_get_noecho_param_names\<close> returns exactly the names whose
  attributes hold a \<^verbatim>\<open>NoEcho\<close> flag with \<^verbatim>\<open>str(flag).lower() == 'true'\<close>; a name
  without the flag is not returned.
\<close>

theorem noecho_names_exact:
  assumes "distinct (map fst decls)"
    and "\<forall>kv\<in>set decls. \<exists>attrs. snd kv = PyDict attrs"
  shows "\<exists>names. cfn_get_noecho_param_names E (PyDict decls) = Inr names
    \<and> set names =
        {PyStr k | k attrs flag. map_of decls k = Some (PyDict attrs)
           \<and> map_of attrs ''NoEcho'' = Some flag \<and> lower (py_str E flag) = ''true''}
    \<and> (\<forall>k attrs. map_of decls k = Some (PyDict attrs) \<and> map_of attrs ''NoEcho'' = None
           \<longrightarrow> PyStr k \<notin> set names)"
proof -
  let ?hidden = "\<lambda>kv. \<exists>attrs flag. snd kv = PyDict attrs \<and> map_of attrs ''NoEcho'' = Some flag
          \<and> lower (py_str E flag) = ''true''"
  let ?names = "map (\<lambda>kv. PyStr (fst kv)) (filter ?hidden decls)"
  have run: "cfn_get_noecho_param_names E (PyDict decls) = Inr ?names"
    using noecho_loop_declarations [OF assms subset_refl, of E "[]"]
    by (cases decls) (simp_all add: cfn_get_noecho_param_names_def)
  have "set ?names =
        {PyStr k | k attrs flag. (k, PyDict attrs) \<in> set decls
           \<and> map_of attrs ''NoEcho'' = Some flag \<and> lower (py_str E flag) = ''true''}"
    by force
  also have "\<dots> =
        {PyStr k | k attrs flag. map_of decls k = Some (PyDict attrs)
           \<and> map_of attrs ''NoEcho'' = Some flag \<and> lower (py_str E flag) = ''true''}"
    using assms(1) by simp
  finally have names: "set ?names =
        {PyStr k | k attrs flag. map_of decls k = Some (PyDict attrs)
           \<and> map_of attrs ''NoEcho'' = Some flag \<and> lower (py_str E flag) = ''true''}" .
  moreover have "\<forall>k attrs. map_of decls k = Some (PyDict attrs) \<and> map_of attrs ''NoEcho'' = None
           \<longrightarrow> PyStr k \<notin> set ?names"
    unfolding names by auto
  ultimately show ?thesis
    using run by blast
qed

theorem noecho_names_exact_witness:
  "cfn_get_noecho_param_names example_env
     (PyDict [(''Env'', PyDict [(''Type'', PyStr ''String''), (''Default'', PyStr ''prod'')]),
              (''Token'', PyDict [(''Type'', PyStr ''String''), (''NoEcho'', PyStr ''True'')]),
              (''Name'', PyDict [(''NoEcho'', PyStr ''false'')])])
     = Inr [PyStr ''Token'']"
proof -
  let ?decls = "[(''Env'', PyDict [(''Type'', PyStr ''String''), (''Default'', PyStr ''prod'')]),
              (''Token'', PyDict [(''Type'', PyStr ''String''), (''NoEcho'', PyStr ''True'')]),
              (''Name'', PyDict [(''NoEcho'', PyStr ''false'' :: unit pyval)])]"
  have d: "distinct (map fst ?decls)" by simp
  have a: "\<forall>kv\<in>set ?decls. \<exists>attrs. snd kv = PyDict attrs" by simp
  from noecho_names_exact [OF d a, of example_env]
  have "\<exists>names. cfn_get_noecho_param_names example_env (PyDict ?decls) = Inr names" by blast
  then show ?thesis
    by (simp add: cfn_get_noecho_param_names_def lower_def lower_char_def)
qed

section \<open>The flag\<close>






section \<open>Scalars become strings\<close>













section \<open>None is kept\<close>

lemma null_for_string_quote:
  "null_for_string u w \<Longrightarrow> well_formed u \<Longrightarrow>
   \<not> py_eq E (quote_json E u) (quote_json E w)
   \<and> (\<forall>u'. sd_value u = Inr u' \<longrightarrow>
        (\<exists>w'. sd_value w = Inr w' \<and> \<not> py_eq E (quote_json E u') (quote_json E w')))"
proof (induction rule: null_for_string.induct)
  case (here s)
  show ?case by (simp add: sd_value_def)
next
  case (in_list a b us vs)
  from in_list.prems have "well_formed a"
    by simp
  with in_list.IH have ab: "\<not> py_eq E (quote_json E a) (quote_json E b)"
    by simp
  have "\<not> py_eq E (quote_json E (PyList (us @ a # vs))) (quote_json E (PyList (us @ b # vs)))"
    using ab by (simp add: list_all2_append)
  then show ?case
    by (simp add: sd_value_def)
next
  case (in_dict a b us k vs)
  let ?d = "us @ (k, a) # vs" and ?d' = "us @ (k, b) # vs"
  from in_dict.prems have wa: "well_formed a" and dd: "distinct (map fst ?d)"
    by simp_all
  then have dd': "distinct (map fst ?d')"
    by simp
  from in_dict.IH wa have ab: "\<not> py_eq E (quote_json E a) (quote_json E b)"
    and sd: "\<And>a'. sd_value a = Inr a' \<Longrightarrow>
        \<exists>b'. sd_value b = Inr b' \<and> \<not> py_eq E (quote_json E a') (quote_json E b')"
    by simp_all
  have 1: "\<not> py_eq E (quote_json E (PyDict ?d)) (quote_json E (PyDict ?d'))"
    using py_eq_quoted_dicts [of E ?d ?d' k a b] dd dd' ab by auto
  have 2: "\<exists>w'. sd_value (PyDict ?d') = Inr w' \<and> \<not> py_eq E (quote_json E u') (quote_json E w')"
    if u': "sd_value (PyDict ?d) = Inr u'" for u'
  proof -
    from u' obtain r where r: "SortedDict ?d = Inr r" and u'_eq: "u' = PyDict r"
      by (auto simp: sd_value_def split: sum.splits)
    have ok: "''self'' \<notin> fst ` set ?d \<and> (\<exists>v'. sd_value (snd kv) = Inr v')" if "kv \<in> set ?d" for kv
      using r that by (rule SortedDict_values_succeed)
    from ok [of "(k, a)"] obtain a' where a': "sd_value a = Inr a'"
      by auto
    from sd [OF a'] obtain b' where b': "sd_value b = Inr b'"
      and ab': "\<not> py_eq E (quote_json E a') (quote_json E b')"
      by blast
    have "''self'' \<notin> fst ` set ?d'"
      using ok [of "(k, a)"] by auto
    moreover have "\<forall>kv\<in>set ?d'. \<exists>v'. sd_value (snd kv) = Inr v'"
      using ok b' by auto
    ultimately obtain r' where r': "SortedDict ?d' = Inr r'"
      using SortedDict_succeeds by blast
    from SortedDict_lookup [OF r dd, of k a] a' have ra: "map_of r k = Some a'"
      by simp
    from SortedDict_lookup [OF r' dd', of k b] b' have rb: "map_of r' k = Some b'"
      by simp
    have "distinct (map fst r)" and "distinct (map fst r')"
      using SortedDict_sorted_val [OF r] SortedDict_sorted_val [OF r'] by simp_all
    with ra rb ab' have "\<not> py_eq E (quote_json E (PyDict r)) (quote_json E (PyDict r'))"
      using py_eq_quoted_dicts [of E r r' k a' b'] by (auto dest: map_of_SomeD)
    with r' show ?thesis
      by (simp add: sd_value_def u'_eq del: quote_json.simps)
  qed
  from 1 2 show ?case by blast
qed

text \<open>
  C10. \<open>quote_json\<close> returns \<^verbatim>\<open>None\<close> as it is. So when a document holds
  \<^verbatim>\<open>None\<close> at a position where another, otherwise the same, holds a string, and the
  first has a canonical form, the second has one too and the two forms are unequal.
  Compared by \<open>main\<close> they give \<open>changed\<close>: always in the format \<^verbatim>\<open>json\<close>, and in
  the format \<^verbatim>\<open>yaml\<close> exactly when the texts written for the two unequal forms
  differ.
\<close>

theorem none_is_kept:
  assumes "null_for_string (PyDict a) (PyDict b)" and "well_formed (PyDict a)"
    and "get_json_or_yaml E (PyDict a) ''json'' = Inr ca"
    and "output_choice L = ''tags''" and "cloud_tags L = PyDict a" and "local_tags L = PyDict b"
  shows "quote_json E PyNone = PyNone
    \<and> (\<exists>cb. get_json_or_yaml E (PyDict b) ''json'' = Inr cb \<and> \<not> py_eq E ca cb
          \<and> (\<exists>r. main E L = Inr r
                \<and> changed r = (output_format L = ''yaml'' \<longrightarrow> yaml_dumps E ca \<noteq> yaml_dumps E cb)))"
proof -
  from assms(3) obtain r where r: "SortedDict a = Inr r" and ca: "ca = quote_json E (PyDict r)"
    by (auto simp: get_json_or_yaml_def sort_and_quote_def and_then_eq_Inr)
  then have "sd_value (PyDict a) = Inr (PyDict r)"
    by (simp add: sd_value_def)
  with null_for_string_quote [OF assms(1,2), of E] obtain w' where
    w': "sd_value (PyDict b) = Inr w'"
    and ne: "\<not> py_eq E (quote_json E (PyDict r)) (quote_json E w')"
    by blast
  from w' obtain r' where r': "SortedDict b = Inr r'" and "w' = PyDict r'"
    by (auto simp: sd_value_def split: sum.splits)
  let ?cb = "quote_json E (PyDict r')"
  have cb: "get_json_or_yaml E (PyDict b) ''json'' = Inr ?cb"
    using r' by (simp add: get_json_or_yaml_def sort_and_quote_def del: quote_json.simps)
  have ne': "\<not> py_eq E ca ?cb"
    using ne \<open>w' = PyDict r'\<close> by (simp add: ca del: quote_json.simps)
  let ?fmt = "output_format L"
  have "get_json_or_yaml E (PyDict a) ?fmt = Inr (write_data E ?fmt ca)"
    and "get_json_or_yaml E (PyDict b) ?fmt = Inr (write_data E ?fmt ?cb)"
    using assms(3) cb by (simp_all add: get_json_or_yaml_format [of E _ ?fmt])
  then have m: "main E L = Inr (diff_result E (write_data E ?fmt ca) (write_data E ?fmt ?cb))"
    using assms(4-6) by (simp add: main_def tags_mode_def)
  have "changed (diff_result E (write_data E ?fmt ca) (write_data E ?fmt ?cb))
      = (?fmt = ''yaml'' \<longrightarrow> yaml_dumps E ca \<noteq> yaml_dumps E ?cb)"
    using ne' by (auto simp: diff_result_def write_data_def simp del: quote_json.simps)
  with m have "\<exists>r. main E L = Inr r
      \<and> changed r = (?fmt = ''yaml'' \<longrightarrow> yaml_dumps E ca \<noteq> yaml_dumps E ?cb)"
    by blast
  with cb ne' have "\<exists>cb. get_json_or_yaml E (PyDict b) ''json'' = Inr cb \<and> \<not> py_eq E ca cb
          \<and> (\<exists>r. main E L = Inr r
                \<and> changed r = (?fmt = ''yaml'' \<longrightarrow> yaml_dumps E ca \<noteq> yaml_dumps E cb))"
    by blast
  moreover have "quote_json E PyNone = PyNone"
    by simp
  ultimately show ?thesis
    by blast
qed

theorem none_is_kept_witness:
  "null_for_string (PyDict [(''A'', PyNone)]) (PyDict [(''A'', PyStr ''x'' :: unit pyval)])
   \<and> well_formed (PyDict [(''A'', PyNone :: unit pyval)])
   \<and> get_json_or_yaml example_env (PyDict [(''A'', PyNone)]) ''json''
       = Inr (PyDict [(''A'', PyNone)])
   \<and> (\<exists>r. main example_env
         \<lparr>output_choice = ''tags'', output_format = ''json'',
          ignore_template_desc = False, ignore_hidden_params = False,
          cloud_template = PyDict [], local_template = PyStr [],
          cloud_params = PyDict [], local_params = PyDict [],
          cloud_tags = PyDict [(''A'', PyNone)],
          local_tags = PyDict [(''A'', PyStr ''x'')]\<rparr> = Inr r \<and> changed r)"
proof -
  let ?a = "[(''A'', PyNone :: unit pyval)]" and ?b = "[(''A'', PyStr ''x'' :: unit pyval)]"
  let ?L = "\<lparr>output_choice = ''tags'', output_format = ''json'',
          ignore_template_desc = False, ignore_hidden_params = False,
          cloud_template = PyDict [], local_template = PyStr [],
          cloud_params = PyDict [], local_params = PyDict [],
          cloud_tags = PyDict ?a, local_tags = PyDict ?b\<rparr>"
  have n: "null_for_string (PyDict ?a) (PyDict ?b)"
    using null_for_string.in_dict [OF null_for_string.here, of "[]" "''A''" "[]" "''x''"]
    by simp
  have w: "well_formed (PyDict ?a)" by simp
  have c: "get_json_or_yaml example_env (PyDict ?a) ''json'' = Inr (PyDict ?a)"
    by (simp add: get_json_or_yaml_def sort_and_quote_def SortedDict_unfold sd_step_def
        sd_value_def dict_of_def)
  from none_is_kept [OF n w c, of ?L] n w c show ?thesis
    by auto
qed

section \<open>Ignoring the description\<close>

lemma template_mode_ignore:
  assumes "get_json_or_yaml E ct ''json'' = Inr (PyDict ca)"
    and "get_json_or_yaml E lt ''json'' = Inr (PyDict cb)"
  shows "template_mode E True fmt ct lt =
    Inr (write_data E fmt (PyDict (AList.delete ''Description'' ca)),
         write_data E fmt (PyDict (AList.delete ''Description'' cb)))"
proof -
  from get_json_or_yaml_json [OF assms(1)] get_json_or_yaml_json [OF assms(2)]
  have "quoted (PyDict ca)" "sorted_val (PyDict ca)"
    and "quoted (PyDict cb)" "sorted_val (PyDict cb)"
    by blast+
  then have "get_json_or_yaml E (PyDict (AList.delete ''Description'' ca)) fmt
      = Inr (write_data E fmt (PyDict (AList.delete ''Description'' ca)))"
    and "get_json_or_yaml E (PyDict (AList.delete ''Description'' cb)) fmt
      = Inr (write_data E fmt (PyDict (AList.delete ''Description'' cb)))"
    unfolding delete_filter by (simp_all add: get_json_or_yaml_filter)
  with assms show ?thesis
    by (simp add: template_mode_def)
qed

lemma template_mode_keep:
  assumes "get_json_or_yaml E ct ''json'' = Inr ca"
    and "get_json_or_yaml E lt ''json'' = Inr cb"
  shows "template_mode E False fmt ct lt = Inr (write_data E fmt ca, write_data E fmt cb)"
  using assms
  by (simp add: template_mode_def get_json_or_yaml_format [of E ct fmt]
      get_json_or_yaml_format [of E lt fmt])

lemma py_eq_write_data_same: "quoted v \<Longrightarrow> py_eq E (write_data E fmt v) (write_data E fmt v)"
  by (simp add: write_data_def py_eq_refl)

lemma changed_write_data:
  "\<not> py_eq E u v \<Longrightarrow>
   (\<not> py_eq E (write_data E fmt u) (write_data E fmt v))
     = (fmt = ''yaml'' \<longrightarrow> yaml_dumps E u \<noteq> yaml_dumps E v)"
  by (auto simp: write_data_def)

text \<open>
  C7. In the mode \<^verbatim>\<open>template\<close> with \<^verbatim>\<open>ignore_template_desc\<close>, what is compared
  are the two canonical forms without the top-level key \<^verbatim>\<open>Description\<close>, every
  other key as it was. For two templates (dicts \<open>a\<close> and \<open>b\<close> as read) that are
  the same but for that key, \<open>changed\<close> is false with the option. Without the option,
  and with two descriptions of different text, \<open>changed\<close> is true in the format
  \<^verbatim>\<open>json\<close>, and in the format \<^verbatim>\<open>yaml\<close> exactly when the texts written for the two
  unequal forms differ.
\<close>

theorem description_is_ignored:
  assumes "output_choice L = ''template''"
    and "read_data E (cloud_template L) = Inr (PyDict a)"
    and "read_data E (local_template L) = Inr (PyDict b)"
    and "distinct (map fst a)" and "distinct (map fst b)"
    and "get_json_or_yaml E (cloud_template L) ''json'' = Inr (PyDict ca)"
    and "get_json_or_yaml E (local_template L) ''json'' = Inr (PyDict cb)"
  shows "(ignore_template_desc L \<longrightarrow>
            main E L = Inr (diff_result E
              (write_data E (output_format L) (PyDict (AList.delete ''Description'' ca)))
              (write_data E (output_format L) (PyDict (AList.delete ''Description'' cb)))))
    \<and> (AList.delete ''Description'' a = AList.delete ''Description'' b \<longrightarrow>
          (ignore_template_desc L \<longrightarrow> (\<exists>r. main E L = Inr r \<and> \<not> changed r))
        \<and> (\<not> ignore_template_desc L
             \<and> map_of a ''Description'' = Some x \<and> map_of b ''Description'' = Some y
             \<and> is_scalar x \<and> is_scalar y \<and> py_str E x \<noteq> py_str E y
           \<longrightarrow> (\<exists>r. main E L = Inr r
                  \<and> changed r = (output_format L = ''yaml''
                       \<longrightarrow> yaml_dumps E (PyDict ca) \<noteq> yaml_dumps E (PyDict cb)))))"
proof -
  let ?fmt = "output_format L"
  let ?ca = "AList.delete ''Description'' ca" and ?cb = "AList.delete ''Description'' cb"
  have ign: "main E L = Inr (diff_result E (write_data E ?fmt (PyDict ?ca))
      (write_data E ?fmt (PyDict ?cb)))" if "ignore_template_desc L"
    using that assms(1) template_mode_ignore [OF assms(6,7), of ?fmt]
    by (simp add: main_def)
  have same: "\<exists>r. main E L = Inr r \<and> \<not> changed r"
    if eq: "AList.delete ''Description'' a = AList.delete ''Description'' b"
      and "ignore_template_desc L"
  proof -
    from eq have "filter (\<lambda>kv. fst kv \<noteq> ''Description'') a
        = filter (\<lambda>kv. fst kv \<noteq> ''Description'') b"
      by (simp add: delete_filter)
    from canonical_filter_eq [OF assms(6,7,2,3,4,5), of "\<lambda>k. k \<noteq> ''Description''", OF this]
    have "?ca = ?cb"
      by (simp add: delete_filter)
    moreover from get_json_or_yaml_json [OF assms(6)] have "quoted (PyDict ca)"
      by blast
    then have "quoted (PyDict ?ca)"
      unfolding delete_filter by (rule quoted_filter)
    ultimately have "py_eq E (write_data E ?fmt (PyDict ?ca)) (write_data E ?fmt (PyDict ?cb))"
      by (simp only: py_eq_write_data_same)
    with ign [OF that(2)] show ?thesis
      by (simp add: diff_result_def)
  qed
  have differ: "\<exists>r. main E L = Inr r
        \<and> changed r = (?fmt = ''yaml'' \<longrightarrow> yaml_dumps E (PyDict ca) \<noteq> yaml_dumps E (PyDict cb))"
    if "\<not> ignore_template_desc L"
      and x: "map_of a ''Description'' = Some x" and y: "map_of b ''Description'' = Some y"
      and sx: "is_scalar x" and sy: "is_scalar y" and ne: "py_str E x \<noteq> py_str E y"
  proof -
    have m: "main E L = Inr (diff_result E (write_data E ?fmt (PyDict ca))
        (write_data E ?fmt (PyDict cb)))"
      using that(1) assms(1) template_mode_keep [OF assms(6,7), of ?fmt]
      by (simp add: main_def)
    have lx: "map_of ca ''Description'' = Some (PyStr (py_str E x))"
      using assms(6,2,4) x sx by (rule canonical_lookup_scalar)
    have ly: "map_of cb ''Description'' = Some (PyStr (py_str E y))"
      using assms(7,3,5) y sy by (rule canonical_lookup_scalar)
    have "\<not> py_eq E (PyDict ca) (PyDict cb)"
    proof
      assume "py_eq E (PyDict ca) (PyDict cb)"
      moreover from lx have "(''Description'', PyStr (py_str E x)) \<in> set ca"
        by (rule map_of_SomeD)
      ultimately have "py_eq E (PyStr (py_str E x)) (PyStr (py_str E y))"
        using ly by (rule py_eq_dict_entry)
      with ne show False by simp
    qed
    from changed_write_data [OF this, of ?fmt] m show ?thesis
      by (simp add: diff_result_def)
  qed
  from ign same differ show ?thesis
    by blast
qed

lemma example_template_forms:
  "get_json_or_yaml example_env
     (PyDict [(''Description'', PyStr ''old''), (''Resources'', PyDict [])]) ''json''
     = Inr (PyDict [(''Description'', PyStr ''old''), (''Resources'', PyDict [])])
   \<and> get_json_or_yaml example_env (PyStr ''{Resources: {}, Description: new}'') ''json''
     = Inr (PyDict [(''Description'', PyStr ''new''), (''Resources'', PyDict [])])"
  by (simp add: get_json_or_yaml_def read_data_def sort_and_quote_def SortedDict_unfold
      sd_step_def sd_value_def dict_of_def example_env_def example_loads_def)

theorem description_is_ignored_witness:
  "(\<exists>r. main example_env
       \<lparr>output_choice = ''template'', output_format = ''yaml'',
        ignore_template_desc = True, ignore_hidden_params = False,
        cloud_template = PyDict [(''Description'', PyStr ''old''), (''Resources'', PyDict [])],
        local_template = PyStr ''{Resources: {}, Description: new}'',
        cloud_params = PyDict [], local_params = PyDict [],
        cloud_tags = PyDict [], local_tags = PyDict []\<rparr> = Inr r \<and> \<not> changed r)
   \<and> (\<exists>r. main example_env
       \<lparr>output_choice = ''template'', output_format = ''json'',
        ignore_template_desc = False, ignore_hidden_params = False,
        cloud_template = PyDict [(''Description'', PyStr ''old''), (''Resources'', PyDict [])],
        local_template = PyStr ''{Resources: {}, Description: new}'',
        cloud_params = PyDict [], local_params = PyDict [],
        cloud_tags = PyDict [], local_tags = PyDict []\<rparr> = Inr r \<and> changed r)"
proof -
  let ?a = "[(''Description'', PyStr ''old''), (''Resources'', PyDict [])] :: (string \<times> unit pyval) list"
  let ?b = "[(''Resources'', PyDict []), (''Description'', PyStr ''new'')] :: (string \<times> unit pyval) list"
  let ?ca = "[(''Description'', PyStr ''old''), (''Resources'', PyDict [])] :: (string \<times> unit pyval) list"
  let ?cb = "[(''Description'', PyStr ''new''), (''Resources'', PyDict [])] :: (string \<times> unit pyval) list"
  let ?L = "\<lambda>fmt ign. \<lparr>output_choice = ''template'', output_format = fmt,
        ignore_template_desc = ign, ignore_hidden_params = False,
        cloud_template = PyDict ?a,
        local_template = PyStr ''{Resources: {}, Description: new}'',
        cloud_params = PyDict [], local_params = PyDict [],
        cloud_tags = PyDict [], local_tags = PyDict []\<rparr>"
  have 1: "output_choice (?L fmt ign) = ''template''" for fmt ign by simp
  have 2: "read_data example_env (cloud_template (?L fmt ign)) = Inr (PyDict ?a)" for fmt ign
    by simp
  have 3: "read_data example_env (local_template (?L fmt ign)) = Inr (PyDict ?b)" for fmt ign
    by (simp add: read_data_def example_env_def example_loads_def)
  have 4: "distinct (map fst ?a)" and 5: "distinct (map fst ?b)" by simp_all
  have 6: "get_json_or_yaml example_env (cloud_template (?L fmt ign)) ''json'' = Inr (PyDict ?ca)"
    and 7: "get_json_or_yaml example_env (local_template (?L fmt ign)) ''json'' = Inr (PyDict ?cb)"
    for fmt ign
    using example_template_forms by simp_all
  have eq: "AList.delete ''Description'' ?a = AList.delete ''Description'' ?b" by simp
  from description_is_ignored [OF 1 2 3 4 5 6 7, of "''yaml''" True] eq
  have A: "\<exists>r. main example_env (?L ''yaml'' True) = Inr r \<and> \<not> changed r"
    by auto
  from description_is_ignored [OF 1 2 3 4 5 6 7, of "''json''" False "PyStr ''old''" "PyStr ''new''"] eq
  have B: "\<exists>r. main example_env (?L ''json'' False) = Inr r \<and> changed r"
    by auto
  from A B show ?thesis by simp
qed

section \<open>Redacting the hidden parameters\<close>

lemma canonical_dict_value:
  "canonical (PyDict d) \<Longrightarrow> map_of d k = Some v \<Longrightarrow> canonical v"
  by (auto simp: canonical_def list_all_iff dest!: map_of_SomeD)

lemma canonical_values_of_canonical: "canonical (PyDict d) \<Longrightarrow> canonical_values d"
  by (auto simp: canonical_def canonical_values_def list_all_iff)

lemma get_json_or_yaml_json_canonical:
  "get_json_or_yaml E data ''json'' = Inr r \<Longrightarrow> canonical r"
  using get_json_or_yaml_json [of E data r] by (auto simp: canonical_def)

lemma get_json_or_yaml_canonical_values:
  assumes "canonical_values d"
  shows "get_json_or_yaml E (PyDict d) fmt = Inr (write_data E fmt (PyDict (sort_key fst d)))"
  using assms
  by (intro get_json_or_yaml_values_canonical)
    (auto simp: canonical_values_def canonical_def list_all_iff)

lemma canonical_values_filter: "canonical_values d \<Longrightarrow> canonical_values (filter P d)"
  by (auto simp: canonical_values_def distinct_map_filter list_all_iff)

lemma set_update_subset: "set (AList.update k v d) \<subseteq> insert (k, v) (set d)"
  by (induction d) auto

lemma canonical_values_update:
  assumes "canonical_values d" and "canonical v" and "k \<noteq> ''self''"
  shows "canonical_values (AList.update k v d)"
proof -
  have "fst ` set (AList.update k v d) = insert k (fst ` set d)"
    using dom_update [of k v d] by simp
  moreover have "\<forall>kv\<in>set (AList.update k v d). canonical (snd kv)"
    using set_update_subset [of k v d] assms(1,2)
    by (auto simp: canonical_values_def list_all_iff)
  ultimately show ?thesis
    using assms by (simp add: canonical_values_def distinct_update list_all_iff)
qed

lemma canonical_values_dict_update:
  "canonical_values d \<Longrightarrow> canonical_values other \<Longrightarrow> canonical_values (dict_update d other)"
proof (induction other arbitrary: d)
  case Nil
  then show ?case by simp
next
  case (Cons p other)
  obtain k v where p: "p = (k, v)" by (cases p)
  from Cons.prems(2) have "canonical v" and "k \<noteq> ''self''" and "canonical_values other"
    by (auto simp: p canonical_values_def)
  with Cons.IH [of "AList.update k v d"] Cons.prems(1) show ?case
    by (simp add: p canonical_values_update)
qed

lemma default_loop_canonical:
  assumes "canonical (PyDict decls)"
  shows "default_loop (PyDict decls) keys data = Inr r \<Longrightarrow>
    set keys \<subseteq> (\<lambda>kv. PyStr (fst kv)) ` set decls \<Longrightarrow>
    canonical_values data \<Longrightarrow> canonical_values r"
proof (induction keys arbitrary: data)
  case Nil
  then show ?case by simp
next
  case (Cons i keys)
  from Cons.prems(2) obtain k where i: "i = PyStr k" and k: "k \<in> fst ` set decls"
    and rest: "set keys \<subseteq> (\<lambda>kv. PyStr (fst kv)) ` set decls"
    by auto
  from assms have "''self'' \<notin> fst ` set decls"
    by (simp add: canonical_def)
  with k have noself: "k \<noteq> ''self''"
    by blast
  from Cons.prems(1) obtain attrs present where
    attrs: "map_of decls k = Some attrs" and present: "py_contains ''Default'' attrs = Inr present"
    by (auto simp: i split: sum.splits option.splits)
  show ?case
  proof (cases present)
    case False
    with Cons.prems(1) attrs present have "default_loop (PyDict decls) keys data = Inr r"
      by (simp add: i)
    from Cons.IH [OF this rest Cons.prems(3)] show ?thesis .
  next
    case True
    with Cons.prems(1) attrs present obtain v where
      v: "py_getitem attrs (PyStr ''Default'') = Inr v"
      and loop: "default_loop (PyDict decls) keys (AList.update k v data) = Inr r"
      by (auto simp: i split: sum.splits)
    from v obtain ad where "attrs = PyDict ad" and "map_of ad ''Default'' = Some v"
      by (cases attrs) (auto split: option.splits)
    with attrs assms have "canonical v"
      by (blast intro: canonical_dict_value)
    with Cons.prems(3) noself have "canonical_values (AList.update k v data)"
      by (simp add: canonical_values_update)
    from Cons.IH [OF loop rest this] show ?thesis .
  qed
qed

lemma noecho_loop_subset:
  "noecho_loop E items keys data = Inr r \<Longrightarrow> set r \<subseteq> set data \<union> set keys"
proof (induction keys arbitrary: data)
  case Nil
  then show ?case by simp
next
  case (Cons i keys)
  from Cons.prems have "noecho_loop E items keys data = Inr r
      \<or> noecho_loop E items keys (data @ [i]) = Inr r"
    by (auto split: sum.splits if_splits)
  with Cons.IH [of data] Cons.IH [of "data @ [i]"] show ?case
    by auto
qed

lemma pop_hidden_strings:
  assumes "\<forall>h\<in>set hidden. \<exists>k. h = PyStr k"
  shows "pop_hidden hidden (PyDict l) (PyDict c) =
    Inr (PyDict (filter (\<lambda>kv. PyStr (fst kv) \<notin> set hidden) l),
         PyDict (filter (\<lambda>kv. PyStr (fst kv) \<notin> set hidden) c))"
  using assms
proof (induction hidden arbitrary: l c)
  case Nil
  show ?case by simp
next
  case (Cons h hidden)
  then obtain k where h: "h = PyStr k" and rest: "\<forall>h\<in>set hidden. \<exists>k. h = PyStr k"
    by auto
  have "filter (\<lambda>kv. PyStr (fst kv) \<notin> set hidden) (AList.delete k d)
      = filter (\<lambda>kv. PyStr (fst kv) \<notin> set (h # hidden)) d" for d :: "(string \<times> 'a pyval) list"
    by (induction d) (auto simp: h)
  with Cons.IH [OF rest] show ?case
    by (simp add: h)
qed

lemma map_of_sort_key:
  "distinct (map fst d) \<Longrightarrow> map_of (sort_key fst d) = map_of d"
  by (subst map_of_inject_set) (simp_all add: distinct_keys_sort_key)

lemma sorted_dicts_equal:
  assumes "sorted (map fst xs)" and "distinct (map fst xs)"
    and "sorted (map fst ys)" and "distinct (map fst ys)"
    and "map_of xs = map_of ys"
  shows "xs = ys"
proof -
  from assms(2,4,5) have s: "set xs = set ys"
    by (simp add: map_of_inject_set)
  with assms(2) have "inj_on fst (set xs \<union> set ys)"
    by (simp add: distinct_map)
  from this assms(1-4) s show ?thesis
    by (rule map_sorted_distinct_set_unique)
qed

lemma parameter_mode_steps:
  assumes "get_json_or_yaml E lp ''json'' = Inr (PyDict overrides)"
    and "get_json_or_yaml E lt ''json'' = Inr templ"
    and "py_get templ ''Parameters'' = Inr (PyDict decls)"
    and "cfn_get_default_value_params E (PyDict decls) = Inr defaults"
    and "cfn_get_noecho_param_names E (PyDict decls) = Inr hidden"
    and "get_json_or_yaml E cp ''json'' = Inr (PyDict remote)"
  shows "canonical_values (dict_update defaults overrides)"
    and "canonical (PyDict remote)"
    and "parameter_mode E True fmt lp lt cp =
      Inr (write_data E fmt (PyDict (filter (\<lambda>kv. PyStr (fst kv) \<notin> set hidden) remote)),
           write_data E fmt (PyDict (sort_key fst
             (filter (\<lambda>kv. PyStr (fst kv) \<notin> set hidden) (dict_update defaults overrides)))))"
    and "parameter_mode E False fmt lp lt cp =
      Inr (write_data E fmt (PyDict remote),
           write_data E fmt (PyDict (sort_key fst (dict_update defaults overrides))))"
proof -
  let ?merged = "dict_update defaults overrides"
  let ?keep = "filter (\<lambda>kv. PyStr (fst kv) \<notin> set hidden)"
  have co: "canonical (PyDict overrides)" and ct: "canonical templ"
    and cr: "canonical (PyDict remote)"
    using assms(1,2,6) by (simp_all add: get_json_or_yaml_json_canonical)
  from assms(3) obtain t where "templ = PyDict t" and "map_of t ''Parameters'' = Some (PyDict decls)"
    by (cases templ) (auto split: option.splits)
  with ct have cd: "canonical (PyDict decls)"
    by (blast intro: canonical_dict_value)
  have keys: "set (map (\<lambda>kv. PyStr (fst kv)) decls) \<subseteq> (\<lambda>kv. PyStr (fst kv)) ` set decls"
    by simp
  have "canonical_values ([] :: (string \<times> 'a pyval) list)"
    by (simp add: canonical_values_def)
  with assms(4) have cdef: "canonical_values defaults"
    using default_loop_canonical [OF cd _ keys, of "[]" defaults]
    by (cases "decls = []") (simp_all add: cfn_get_default_value_params_def)
  from co have "canonical_values overrides"
    by (rule canonical_values_of_canonical)
  with cdef show cm: "canonical_values ?merged"
    by (rule canonical_values_dict_update)
  from cr show "canonical (PyDict remote)" .
  have "set hidden \<subseteq> set (map (\<lambda>kv. PyStr (fst kv)) decls)"
    using assms(5) noecho_loop_subset [of E "PyDict decls" "map (\<lambda>kv. PyStr (fst kv)) decls" "[]" hidden]
    by (cases "decls = []") (simp_all add: cfn_get_noecho_param_names_def)
  then have "\<forall>h\<in>set hidden. \<exists>k. h = PyStr k"
    by auto
  then have pop: "pop_hidden hidden (PyDict ?merged) (PyDict remote) =
      Inr (PyDict (?keep ?merged), PyDict (?keep remote))"
    by (rule pop_hidden_strings)
  have l: "get_json_or_yaml E (PyDict (?keep ?merged)) fmt
      = Inr (write_data E fmt (PyDict (sort_key fst (?keep ?merged))))"
    using cm by (intro get_json_or_yaml_canonical_values canonical_values_filter)
  have c: "get_json_or_yaml E (PyDict (?keep remote)) fmt
      = Inr (write_data E fmt (PyDict (?keep remote)))"
    using cr by (intro get_json_or_yaml_filter) (simp_all add: canonical_def)
  from assms pop l c
  show "parameter_mode E True fmt lp lt cp =
      Inr (write_data E fmt (PyDict (?keep remote)),
           write_data E fmt (PyDict (sort_key fst (?keep ?merged))))"
    by (simp add: parameter_mode_def)
  have "get_json_or_yaml E (PyDict ?merged) fmt
      = Inr (write_data E fmt (PyDict (sort_key fst ?merged)))"
    using cm by (rule get_json_or_yaml_canonical_values)
  moreover have "get_json_or_yaml E cp fmt = Inr (write_data E fmt (PyDict remote))"
    using assms(6) by (simp add: get_json_or_yaml_format [of E cp fmt])
  ultimately
  show "parameter_mode E False fmt lp lt cp =
      Inr (write_data E fmt (PyDict remote),
           write_data E fmt (PyDict (sort_key fst ?merged)))"
    using assms by (simp add: parameter_mode_def)
qed

text \<open>
  C5. In the mode \<^verbatim>\<open>parameter\<close> the local side is the template's defaults
  overridden by the given parameters (\<open>dict_update defaults overrides\<close>) and the
  remote side is the stack's parameters. With \<^verbatim>\<open>ignore_hidden_params\<close> every name
  that \<open>cfn_get_noecho_param_names\<close> returns is removed from both sides and every
  other parameter stays. So when the two sides agree on every parameter that is not
  hidden, \<open>changed\<close> is false with the option. Without it, and with a parameter whose
  values on the two sides are unequal, \<open>changed\<close> is true in the format \<^verbatim>\<open>json\<close>,
  and in the format \<^verbatim>\<open>yaml\<close> exactly when the texts written for the two unequal
  dicts differ.
\<close>

theorem hidden_parameters_are_removed:
  assumes "output_choice L = ''parameter''"
    and "get_json_or_yaml E (local_params L) ''json'' = Inr (PyDict overrides)"
    and "get_json_or_yaml E (local_template L) ''json'' = Inr templ"
    and "py_get templ ''Parameters'' = Inr (PyDict decls)"
    and "cfn_get_default_value_params E (PyDict decls) = Inr defaults"
    and "cfn_get_noecho_param_names E (PyDict decls) = Inr hidden"
    and "get_json_or_yaml E (cloud_params L) ''json'' = Inr (PyDict remote)"
  shows "(ignore_hidden_params L \<longrightarrow>
            main E L = Inr (diff_result E
              (write_data E (output_format L)
                (PyDict (filter (\<lambda>kv. PyStr (fst kv) \<notin> set hidden) remote)))
              (write_data E (output_format L)
                (PyDict (sort_key fst (filter (\<lambda>kv. PyStr (fst kv) \<notin> set hidden)
                  (dict_update defaults overrides)))))))
    \<and> ((\<forall>k. PyStr k \<notin> set hidden \<longrightarrow>
            map_of (dict_update defaults overrides) k = map_of remote k) \<longrightarrow>
          (ignore_hidden_params L \<longrightarrow> (\<exists>r. main E L = Inr r \<and> \<not> changed r))
        \<and> (\<not> ignore_hidden_params L
             \<and> map_of remote k = Some y \<and> map_of (dict_update defaults overrides) k = Some x
             \<and> \<not> py_eq E y x
           \<longrightarrow> (\<exists>r. main E L = Inr r
                  \<and> changed r = (output_format L = ''yaml''
                       \<longrightarrow> yaml_dumps E (PyDict remote)
                            \<noteq> yaml_dumps E (PyDict (sort_key fst (dict_update defaults overrides)))))))"
proof -
  let ?fmt = "output_format L"
  let ?merged = "dict_update defaults overrides"
  let ?keep = "filter (\<lambda>kv. PyStr (fst kv) \<notin> set hidden)"
  note steps = parameter_mode_steps [OF assms(2-7)]
  have cm: "canonical_values ?merged" and cr: "canonical (PyDict remote)"
    by (rule steps)+
  have ign: "main E L = Inr (diff_result E (write_data E ?fmt (PyDict (?keep remote)))
      (write_data E ?fmt (PyDict (sort_key fst (?keep ?merged)))))" if "ignore_hidden_params L"
    using that assms(1) steps(3) [of ?fmt] by (simp add: main_def)
  have same: "\<exists>r. main E L = Inr r \<and> \<not> changed r"
    if agree: "\<forall>k. PyStr k \<notin> set hidden \<longrightarrow> map_of ?merged k = map_of remote k"
      and "ignore_hidden_params L"
  proof -
    have dm: "distinct (map fst (?keep ?merged))"
      using cm by (simp add: canonical_values_def distinct_map_filter)
    have "sorted_val (PyDict (?keep remote))"
      using cr by (intro sorted_val_filter) (simp add: canonical_def)
    then have sr: "sorted (map fst (?keep remote))" and dr: "distinct (map fst (?keep remote))"
      by simp_all
    have "map_of (sort_key fst (?keep ?merged)) = map_of (?keep ?merged)"
      using dm by (rule map_of_sort_key)
    also have "\<dots> = map_of (?keep remote)"
      using agree
      by (auto simp: map_of_filter [of "\<lambda>k. PyStr k \<notin> set hidden"] restrict_map_def fun_eq_iff)
    finally have "sort_key fst (?keep ?merged) = ?keep remote"
      using dm sr dr by (intro sorted_dicts_equal) (simp_all add: distinct_keys_sort_key)
    moreover have "quoted (PyDict (?keep remote))"
      using cr by (intro quoted_filter) (simp add: canonical_def)
    ultimately have "py_eq E (write_data E ?fmt (PyDict (?keep remote)))
        (write_data E ?fmt (PyDict (sort_key fst (?keep ?merged))))"
      by (simp only: py_eq_write_data_same)
    with ign [OF that(2)] show ?thesis
      by (simp add: diff_result_def)
  qed
  have differ: "\<exists>r. main E L = Inr r
        \<and> changed r = (?fmt = ''yaml''
             \<longrightarrow> yaml_dumps E (PyDict remote) \<noteq> yaml_dumps E (PyDict (sort_key fst ?merged)))"
    if "\<not> ignore_hidden_params L"
      and y: "map_of remote k = Some y" and x: "map_of ?merged k = Some x"
      and ne: "\<not> py_eq E y x"
  proof -
    have m: "main E L = Inr (diff_result E (write_data E ?fmt (PyDict remote))
        (write_data E ?fmt (PyDict (sort_key fst ?merged))))"
      using that(1) assms(1) steps(4) [of ?fmt] by (simp add: main_def)
    have "distinct (map fst ?merged)"
      using cm by (simp add: canonical_values_def)
    with x have lx: "map_of (sort_key fst ?merged) k = Some x"
      by (simp add: map_of_sort_key)
    have "\<not> py_eq E (PyDict remote) (PyDict (sort_key fst ?merged))"
    proof
      assume "py_eq E (PyDict remote) (PyDict (sort_key fst ?merged))"
      moreover from y have "(k, y) \<in> set remote"
        by (rule map_of_SomeD)
      ultimately have "py_eq E y x"
        using lx by (rule py_eq_dict_entry)
      with ne show False ..
    qed
    from changed_write_data [OF this, of ?fmt] m show ?thesis
      by (simp add: diff_result_def)
  qed
  from ign same differ show ?thesis
    by blast
qed

lemma example_parameter_forms:
  "get_json_or_yaml example_env
     (PyDict [(''Parameters'', PyDict
        [(''Token'', PyDict [(''NoEcho'', PyBool True)]),
         (''Env'', PyDict [(''Default'', PyStr ''prod'')])])]) ''json''
     = Inr (PyDict [(''Parameters'', PyDict
        [(''Env'', PyDict [(''Default'', PyStr ''prod'')]),
         (''Token'', PyDict [(''NoEcho'', PyStr ''True'')])])])
   \<and> get_json_or_yaml example_env (PyDict [(''Token'', PyStr ''realvalue'')]) ''json''
     = Inr (PyDict [(''Token'', PyStr ''realvalue'')])
   \<and> get_json_or_yaml example_env
     (PyDict [(''Token'', PyStr ''****''), (''Env'', PyStr ''prod'')]) ''json''
     = Inr (PyDict [(''Env'', PyStr ''prod''), (''Token'', PyStr ''****'')])"
  by (simp add: get_json_or_yaml_def read_data_def sort_and_quote_def SortedDict_unfold
      sd_step_def sd_value_def dict_of_def)

lemma example_parameter_names:
  "cfn_get_default_value_params example_env (PyDict
        [(''Env'', PyDict [(''Default'', PyStr ''prod'')]),
         (''Token'', PyDict [(''NoEcho'', PyStr ''True'')])])
     = Inr [(''Env'', PyStr ''prod'')]
   \<and> cfn_get_noecho_param_names example_env (PyDict
        [(''Env'', PyDict [(''Default'', PyStr ''prod'')]),
         (''Token'', PyDict [(''NoEcho'', PyStr ''True'')])])
     = Inr [PyStr ''Token'']"
  by (simp add: cfn_get_default_value_params_def cfn_get_noecho_param_names_def
      lower_def lower_char_def)

theorem hidden_parameters_are_removed_witness:
  "(\<exists>r. main example_env
       \<lparr>output_choice = ''parameter'', output_format = ''yaml'',
        ignore_template_desc = False, ignore_hidden_params = True,
        cloud_template = PyDict [],
        local_template = PyDict [(''Parameters'', PyDict
          [(''Token'', PyDict [(''NoEcho'', PyBool True)]),
           (''Env'', PyDict [(''Default'', PyStr ''prod'')])])],
        cloud_params = PyDict [(''Token'', PyStr ''****''), (''Env'', PyStr ''prod'')],
        local_params = PyDict [(''Token'', PyStr ''realvalue'')],
        cloud_tags = PyDict [], local_tags = PyDict []\<rparr> = Inr r \<and> \<not> changed r)
   \<and> (\<exists>r. main example_env
       \<lparr>output_choice = ''parameter'', output_format = ''json'',
        ignore_template_desc = False, ignore_hidden_params = False,
        cloud_template = PyDict [],
        local_template = PyDict [(''Parameters'', PyDict
          [(''Token'', PyDict [(''NoEcho'', PyBool True)]),
           (''Env'', PyDict [(''Default'', PyStr ''prod'')])])],
        cloud_params = PyDict [(''Token'', PyStr ''****''), (''Env'', PyStr ''prod'')],
        local_params = PyDict [(''Token'', PyStr ''realvalue'')],
        cloud_tags = PyDict [], local_tags = PyDict []\<rparr> = Inr r \<and> changed r)"
proof -
  let ?decls = "[(''Env'', PyDict [(''Default'', PyStr ''prod'')]),
         (''Token'', PyDict [(''NoEcho'', PyStr ''True'')])] :: (string \<times> unit pyval) list"
  let ?templ = "PyDict [(''Parameters'', PyDict ?decls)]"
  let ?overrides = "[(''Token'', PyStr ''realvalue'')] :: (string \<times> unit pyval) list"
  let ?defaults = "[(''Env'', PyStr ''prod'')] :: (string \<times> unit pyval) list"
  let ?remote = "[(''Env'', PyStr ''prod''), (''Token'', PyStr ''****'')] :: (string \<times> unit pyval) list"
  let ?hidden = "[PyStr ''Token''] :: unit pyval list"
  let ?L = "\<lambda>fmt ign. \<lparr>output_choice = ''parameter'', output_format = fmt,
        ignore_template_desc = False, ignore_hidden_params = ign,
        cloud_template = PyDict [],
        local_template = PyDict [(''Parameters'', PyDict
          [(''Token'', PyDict [(''NoEcho'', PyBool True)]),
           (''Env'', PyDict [(''Default'', PyStr ''prod'')])])],
        cloud_params = PyDict [(''Token'', PyStr ''****''), (''Env'', PyStr ''prod'')],
        local_params = PyDict [(''Token'', PyStr ''realvalue'')],
        cloud_tags = PyDict [], local_tags = PyDict []\<rparr> :: unit locals"
  have 1: "output_choice (?L fmt ign) = ''parameter''" for fmt ign by simp
  have 2: "get_json_or_yaml example_env (local_params (?L fmt ign)) ''json'' = Inr (PyDict ?overrides)"
    and 3: "get_json_or_yaml example_env (local_template (?L fmt ign)) ''json'' = Inr ?templ"
    and 7: "get_json_or_yaml example_env (cloud_params (?L fmt ign)) ''json'' = Inr (PyDict ?remote)"
    for fmt ign
    using example_parameter_forms by simp_all
  have 4: "py_get ?templ ''Parameters'' = Inr (PyDict ?decls)" by simp
  have 5: "cfn_get_default_value_params example_env (PyDict ?decls) = Inr ?defaults"
    and 6: "cfn_get_noecho_param_names example_env (PyDict ?decls) = Inr ?hidden"
    using example_parameter_names by simp_all
  have agree: "\<forall>k. PyStr k \<notin> set ?hidden \<longrightarrow>
      map_of (dict_update ?defaults ?overrides) k = map_of ?remote k"
    by simp
  from hidden_parameters_are_removed [OF 1 2 3 4 5 6 7, of "''yaml''" True] agree
  have A: "\<exists>r. main example_env (?L ''yaml'' True) = Inr r \<and> \<not> changed r"
    by auto
  from hidden_parameters_are_removed [OF 1 2 3 4 5 6 7, of "''json''" False
      "''Token''" "PyStr ''****''" "PyStr ''realvalue''"] agree
  have B: "\<exists>r. main example_env (?L ''json'' False) = Inr r \<and> changed r"
    by auto
  from A B show ?thesis by simp
qed

end
